theory Spec2Isabelle
  imports Main "HOL-Library.Word" "HOL-Library.Multiset"
begin

unbundle bit_operations_syntax

section \<open>Data model of \<open>wifi_station.cc\<close>\<close>

subsection \<open>C strings\<close>

text \<open>
  A \<open>std::string\<close> is a \<open>string\<close>. Where the source hands a string to a C function
  (\<open>c_str()\<close>, \<open>strcmp\<close>, \<open>strncmp\<close>, \<open>strstr\<close>, \<open>strlcpy\<close>) only the bytes before the
  first NUL take part, which \<open>c_str\<close> computes.
\<close>

definition NUL :: char where
  "NUL = CHR 0x00"

definition c_str :: "string \<Rightarrow> string" where
  "c_str s = takeWhile (\<lambda>c. c \<noteq> NUL) s"

definition nul_free :: "string \<Rightarrow> bool" where
  "nul_free s = (NUL \<notin> set s)"

text \<open>\<open>strcmp(a, b) == 0\<close>.\<close>

definition strcmp_eq :: "string \<Rightarrow> string \<Rightarrow> bool" where
  "strcmp_eq a b = (c_str a = c_str b)"

text \<open>\<open>strncmp(a, b, n) == 0\<close>.\<close>

definition strncmp_eq :: "string \<Rightarrow> string \<Rightarrow> nat \<Rightarrow> bool" where
  "strncmp_eq a b n = (take n (c_str a) = take n (c_str b))"

text \<open>\<open>strlcpy(dst, src, n)\<close> into a zeroed buffer: at most \<open>n - 1\<close> bytes of \<open>src\<close>.\<close>

definition strlcpy :: "string \<Rightarrow> nat \<Rightarrow> string" where
  "strlcpy src n = take (n - 1) (c_str src)"

text \<open>\<open>hay.find(needle) != npos\<close> on \<open>std::string\<close>.\<close>

fun str_contains :: "string \<Rightarrow> string \<Rightarrow> bool" where
  "str_contains [] needle = (needle = [])"
| "str_contains (c # cs) needle =
     (take (length needle) (c # cs) = needle \<or> str_contains cs needle)"

text \<open>\<open>strstr(hay, needle) != NULL\<close> on C strings.\<close>

definition strstr_found :: "string \<Rightarrow> string \<Rightarrow> bool" where
  "strstr_found hay needle = str_contains (c_str hay) (c_str needle)"

text \<open>Decimal printing (\<open>%d\<close>) of a byte, and the dotted quad of \<open>inet_ntoa\<close> and
  \<open>esp_ip4addr_ntoa\<close>.\<close>

definition digit_char :: "nat \<Rightarrow> char" where
  "digit_char d = ''0123456789'' ! d"

fun dec :: "nat \<Rightarrow> string" where
  "dec n = (if n < 10 then [digit_char n] else dec (n div 10) @ [digit_char (n mod 10)])"

declare dec.simps [simp del]

definition ntoa :: "8 word \<times> 8 word \<times> 8 word \<times> 8 word \<Rightarrow> string" where
  "ntoa ip = (case ip of (a, b, c, d) \<Rightarrow>
     dec (unat a) @ ''.'' @ dec (unat b) @ ''.'' @ dec (unat c) @ ''.'' @ dec (unat d))"

subsection \<open>Driver types\<close>

text \<open>
  \<open>wifi_auth_mode_t\<close> of the radio driver. The source distinguishes the open mode and the
  two enterprise modes; every other mode is treated alike.
\<close>

datatype wifi_auth_mode_t =
    WIFI_AUTH_OPEN
  | WIFI_AUTH_WEP
  | WIFI_AUTH_WPA_PSK
  | WIFI_AUTH_WPA2_PSK
  | WIFI_AUTH_WPA_WPA2_PSK
  | WIFI_AUTH_WPA2_ENTERPRISE
  | WIFI_AUTH_WPA3_PSK
  | WIFI_AUTH_WPA2_WPA3_PSK
  | WIFI_AUTH_WPA2_WPA3_ENTERPRISE
  | WIFI_AUTH_OTHER nat

text \<open>\<open>wifi_ap_record_t\<close>: one scan result (the fields the source reads).\<close>

record wifi_ap_record_t =
  ap_bssid :: "8 word list"
  ap_ssid :: string
  ap_primary :: "8 word"
  ap_rssi :: "8 word"  \<comment> \<open>\<open>int8_t\<close>, read with \<open>sint\<close>\<close>
  ap_authmode :: wifi_auth_mode_t

text \<open>\<open>SsidItem\<close>: one known network of the credential store.\<close>

record SsidItem =
  item_ssid :: string
  item_password :: string
  item_username :: string

text \<open>An IPv4 address, as its four bytes in the order they are printed.\<close>

type_synonym ip4_addr = "8 word \<times> 8 word \<times> 8 word \<times> 8 word"

text \<open>\<open>WifiApRecord\<close>: one connection candidate of \<open>connect_queue_\<close>.\<close>

record WifiApRecord =
  rec_ssid :: string
  rec_password :: string
  rec_username :: string
  rec_channel :: "8 word"
  rec_authmode :: wifi_auth_mode_t
  rec_bssid :: "8 word list"

text \<open>The station part of \<open>wifi_config_t\<close>, as \<open>StartConnect\<close> fills it after \<open>bzero\<close>.\<close>

record wifi_sta_config =
  sta_ssid :: string
  sta_password :: string
  sta_channel :: "8 word"
  sta_bssid :: "8 word list"
  sta_bssid_set :: bool
  sta_listen_interval :: nat

definition zero_config :: wifi_sta_config where
  "zero_config = \<lparr>sta_ssid = [], sta_password = [], sta_channel = 0,
     sta_bssid = replicate 6 0, sta_bssid_set = False, sta_listen_interval = 0\<rparr>"

subsection \<open>Effects\<close>

text \<open>
  Every command to the radio driver, timer, event notifier or scheduler is appended to the
  station's \<open>trace\<close>, in program order.
\<close>

datatype action =
    Esp_wifi_scan_start
  | Esp_wifi_scan_stop
  | Esp_wifi_connect
  | Esp_wifi_disconnect
  | Esp_wifi_stop
  | Esp_wifi_set_config wifi_sta_config
  | Wpa2_ent_set_identity string
  | Wpa2_ent_set_username string
  | Wpa2_ent_set_password string
  | Wpa2_ent_enable
  | Wpa2_ent_disable
  | Esp_timer_start_once int
  | Esp_timer_stop_delete
  | Unregister_wifi_events
  | Unregister_ip_events
  | Netif_destroy
  | Call_on_scan_begin
  | Call_on_connect string
  | Call_on_connected string
  | Call_on_disconnected
  | StartPortalLogin string string string  \<comment> \<open>username, password, ssid of the task context\<close>

text \<open>
  What the collaborators answer while one handler runs: the credential store's
  \<open>GetSsidList()\<close>, the records of the finished scan, the results of the two calls that
  \<open>StartConnect\<close> wraps in \<open>ESP_ERROR_CHECK\<close>, and the answer of
  \<open>esp_wifi_sta_get_ap_info\<close> (\<open>None\<close> when it is not \<open>ESP_OK\<close>).
\<close>

record driver_reply =
  ssid_list :: "SsidItem list"
  scan_ap_records :: "wifi_ap_record_t list"
  set_config_ok :: bool
  connect_ok :: bool
  sta_ap_info :: "wifi_ap_record_t option"

subsection \<open>The station object\<close>

type_synonym EventBits_t = "32 word"

definition WIFI_EVENT_CONNECTED :: EventBits_t where
  "WIFI_EVENT_CONNECTED = 1"

definition WIFI_EVENT_STOPPED :: EventBits_t where
  "WIFI_EVENT_STOPPED = 2"

definition WIFI_EVENT_SCAN_DONE_BIT :: EventBits_t where
  "WIFI_EVENT_SCAN_DONE_BIT = 4"

definition MAX_RECONNECT_COUNT :: int where
  "MAX_RECONNECT_COUNT = 5"

text \<open>
  The members of \<open>WifiStation\<close> that the functions below read or write, named as in
  the source without the trailing underscore. A callback or handle is modelled by whether
  it is set. The three scan intervals are C \<open>int\<close>s holding microseconds.
\<close>

record WifiStation =
  event_group :: EventBits_t
  ssid :: string
  password :: string
  ip_address :: string
  connect_queue :: "WifiApRecord list"
  reconnect_count :: int
  was_connected :: bool
  needs_portal_login :: bool
  pending_portal_username :: string
  pending_portal_password :: string
  scan_min_interval_microseconds :: int
  scan_max_interval_microseconds :: int
  scan_current_interval_microseconds :: int
  remember_bssid :: "8 word"
  on_scan_begin :: bool
  on_connect :: bool
  on_connected :: bool
  on_disconnected :: bool
  instance_any_id :: bool
  instance_got_ip :: bool
  timer_handle :: bool
  station_netif :: bool
  trace :: "action list"

definition emit :: "action list \<Rightarrow> WifiStation \<Rightarrow> WifiStation" where
  "emit as s = s\<lparr>trace := trace s @ as\<rparr>"

definition xEventGroupSetBits :: "EventBits_t \<Rightarrow> WifiStation \<Rightarrow> WifiStation" where
  "xEventGroupSetBits bits s = s\<lparr>event_group := event_group s OR bits\<rparr>"

definition xEventGroupClearBits :: "EventBits_t \<Rightarrow> WifiStation \<Rightarrow> WifiStation" where
  "xEventGroupClearBits bits s = s\<lparr>event_group := event_group s AND NOT bits\<rparr>"

section \<open>Operations\<close>

definition IsConnected :: "WifiStation \<Rightarrow> bool" where
  "IsConnected s = (event_group s AND WIFI_EVENT_CONNECTED \<noteq> 0)"

text \<open>
  \<open>GetRssi\<close> and \<open>GetChannel\<close> return their value together with the station, which no
  statement of either body assigns to.
\<close>

definition GetRssi :: "driver_reply \<Rightarrow> WifiStation \<Rightarrow> 8 word \<times> WifiStation" where
  "GetRssi drv s =
     (if \<not> IsConnected s then (0, s)
      else case sta_ap_info drv of
             Some ap_info \<Rightarrow> (ap_rssi ap_info, s)
           | None \<Rightarrow> (0, s))"

definition GetChannel :: "driver_reply \<Rightarrow> WifiStation \<Rightarrow> 8 word \<times> WifiStation" where
  "GetChannel drv s =
     (if \<not> IsConnected s then (0, s)
      else case sta_ap_info drv of
             Some ap_info \<Rightarrow> (ap_primary ap_info, s)
           | None \<Rightarrow> (0, s))"

text \<open>
  \<open>StartConnect\<close>. The result is \<open>None\<close> when an \<open>ESP_ERROR_CHECK\<close> aborts the firmware.
\<close>

definition is_enterprise_of :: "WifiApRecord \<Rightarrow> bool" where
  "is_enterprise_of ap_record =
     (rec_username ap_record \<noteq> [] \<and>
      (rec_authmode ap_record = WIFI_AUTH_WPA2_ENTERPRISE \<or>
       rec_authmode ap_record = WIFI_AUTH_WPA2_WPA3_ENTERPRISE))"

definition needs_portal_of :: "WifiApRecord \<Rightarrow> bool" where
  "needs_portal_of ap_record = (rec_username ap_record \<noteq> [] \<and> \<not> is_enterprise_of ap_record)"

definition enterprise_setup :: "WifiApRecord \<Rightarrow> action list" where
  "enterprise_setup ap_record =
     (if is_enterprise_of ap_record
      then [Wpa2_ent_set_identity (rec_username ap_record),
            Wpa2_ent_set_username (rec_username ap_record),
            Wpa2_ent_set_password (rec_password ap_record),
            Wpa2_ent_enable]
      else [Wpa2_ent_disable])"

definition make_wifi_config :: "8 word \<Rightarrow> WifiApRecord \<Rightarrow> wifi_sta_config" where
  "make_wifi_config remember ap_record =
     (let c0 = zero_config\<lparr>sta_ssid := strlcpy (rec_ssid ap_record) 32\<rparr>;
          c1 = (if \<not> is_enterprise_of ap_record \<and> rec_authmode ap_record \<noteq> WIFI_AUTH_OPEN
                then c0\<lparr>sta_password := strlcpy (rec_password ap_record) 64\<rparr> else c0);
          c2 = (if remember \<noteq> 0
                then c1\<lparr>sta_channel := rec_channel ap_record, sta_bssid := take 6 (rec_bssid ap_record),
                        sta_bssid_set := True\<rparr>
                else c1)
      in c2\<lparr>sta_listen_interval := 3\<rparr>)"

definition StartConnect :: "driver_reply \<Rightarrow> WifiStation \<Rightarrow> WifiStation option" where
  "StartConnect drv s =
     (case connect_queue s of
        [] \<Rightarrow> Some (emit [Esp_wifi_scan_start] s)
      | ap_record # rest \<Rightarrow>
          let s1 = s\<lparr>connect_queue := rest, ssid := rec_ssid ap_record,
                     password := rec_password ap_record\<rparr>;
              s2 = emit ((if on_connect s1 then [Call_on_connect (ssid s1)] else [])
                         @ [Esp_wifi_disconnect]) s1;
              s3 = s2\<lparr>needs_portal_login := False, pending_portal_username := [],
                      pending_portal_password := []\<rparr>;
              s4 = (if needs_portal_of ap_record
                    then s3\<lparr>needs_portal_login := True,
                            pending_portal_username := rec_username ap_record,
                            pending_portal_password := rec_password ap_record\<rparr>
                    else s3);
              s5 = emit (enterprise_setup ap_record
                         @ [Esp_wifi_set_config (make_wifi_config (remember_bssid s4) ap_record)]) s4
          in if \<not> set_config_ok drv then None
             else let s6 = emit [Esp_wifi_connect] (s5\<lparr>reconnect_count := 0\<rparr>)
                  in if \<not> connect_ok drv then None else Some s6)"

text \<open>
  The three intervals are 32-bit \<open>int\<close>s: a product that leaves the range wraps around.
\<close>

definition int32_wrap :: "int \<Rightarrow> int" where
  "int32_wrap x = (x + 2 ^ 31) mod 2 ^ 32 - 2 ^ 31"

definition SetScanIntervalRange :: "int \<Rightarrow> int \<Rightarrow> WifiStation \<Rightarrow> WifiStation" where
  "SetScanIntervalRange min_interval_seconds max_interval_seconds s =
     (let s1 = s\<lparr>scan_min_interval_microseconds :=
                     int32_wrap (int32_wrap (min_interval_seconds * 1000) * 1000)\<rparr>;
          s2 = s1\<lparr>scan_max_interval_microseconds :=
                     int32_wrap (int32_wrap (max_interval_seconds * 1000) * 1000)\<rparr>
      in s2\<lparr>scan_current_interval_microseconds := scan_min_interval_microseconds s2\<rparr>)"

definition UpdateScanInterval :: "WifiStation \<Rightarrow> WifiStation" where
  "UpdateScanInterval s =
     (if scan_current_interval_microseconds s < scan_max_interval_microseconds s
      then let s1 = s\<lparr>scan_current_interval_microseconds :=
                          int32_wrap (scan_current_interval_microseconds s * 2)\<rparr>
           in if scan_current_interval_microseconds s1 > scan_max_interval_microseconds s1
              then s1\<lparr>scan_current_interval_microseconds := scan_max_interval_microseconds s1\<rparr>
              else s1
      else s)"

text \<open>
  \<open>esp_timer_start_once(timer_handle_, scan_current_interval_microseconds_)\<close> followed by
  \<open>UpdateScanInterval()\<close>, as three places of the source have it.
\<close>

definition schedule_rescan :: "WifiStation \<Rightarrow> WifiStation" where
  "schedule_rescan s =
     UpdateScanInterval (emit [Esp_timer_start_once (scan_current_interval_microseconds s)] s)"

subsection \<open>\<open>HandleScanResult\<close>\<close>

text \<open>The comparator handed to \<open>std::sort\<close>: \<open>a.rssi > b.rssi\<close> on \<open>int8_t\<close>.\<close>

definition rssi_gt :: "wifi_ap_record_t \<Rightarrow> wifi_ap_record_t \<Rightarrow> bool" where
  "rssi_gt a b = (sint (ap_rssi a) > sint (ap_rssi b))"

text \<open>
  \<open>std::sort\<close> is library code. It is a parameter \<open>srt\<close> of the model; what the C++
  standard promises of it is \<open>std_sort_contract\<close>: the result is a rearrangement of the
  input in which no later element compares before an earlier one. The standard leaves the
  order of elements of equal signal strength open.
\<close>

definition std_sort_contract :: "(wifi_ap_record_t list \<Rightarrow> wifi_ap_record_t list) \<Rightarrow> bool" where
  "std_sort_contract srt =
     (\<forall>xs. mset (srt xs) = mset xs \<and> sorted_wrt (\<lambda>a b. \<not> rssi_gt b a) (srt xs))"

text \<open>The predicate of \<open>std::find_if\<close> over the known networks.\<close>

definition ssid_matches :: "wifi_ap_record_t \<Rightarrow> SsidItem \<Rightarrow> bool" where
  "ssid_matches ap_record item = strcmp_eq (ap_ssid ap_record) (item_ssid item)"

definition make_record :: "SsidItem \<Rightarrow> wifi_ap_record_t \<Rightarrow> WifiApRecord" where
  "make_record it ap_record =
     \<lparr>rec_ssid = item_ssid it, rec_password = item_password it, rec_username = item_username it,
      rec_channel = ap_primary ap_record, rec_authmode = ap_authmode ap_record,
      rec_bssid = take 6 (ap_bssid ap_record)\<rparr>"

text \<open>The \<open>for\<close> loop over the sorted records, pushing onto the queue \<open>q\<close>.\<close>

fun match_loop :: "SsidItem list \<Rightarrow> wifi_ap_record_t list \<Rightarrow> WifiApRecord list \<Rightarrow> WifiApRecord list"
  where
  "match_loop sl [] q = q"
| "match_loop sl (ap_record # aps) q =
     (case find (ssid_matches ap_record) sl of
        None \<Rightarrow> match_loop sl aps q
      | Some it \<Rightarrow> match_loop sl aps (q @ [make_record it ap_record]))"

text \<open>
  The queue as it is when the loop ends, before \<open>StartConnect\<close> pops its head: the
  ranker's output.
\<close>

definition ranked_queue ::
  "(wifi_ap_record_t list \<Rightarrow> wifi_ap_record_t list) \<Rightarrow> driver_reply \<Rightarrow> WifiStation \<Rightarrow> WifiStation"
  where
  "ranked_queue srt drv s =
     (let ap_records = srt (scan_ap_records drv);
          s1 = s\<lparr>connect_queue := []\<rparr>
      in s1\<lparr>connect_queue := match_loop (ssid_list drv) ap_records (connect_queue s1)\<rparr>)"

definition HandleScanResult ::
  "(wifi_ap_record_t list \<Rightarrow> wifi_ap_record_t list) \<Rightarrow> driver_reply \<Rightarrow> WifiStation
   \<Rightarrow> WifiStation option"
  where
  "HandleScanResult srt drv s =
     (if length (scan_ap_records drv) = 0 then Some (schedule_rescan s)
      else let s1 = ranked_queue srt drv s
           in if connect_queue s1 = [] then Some (schedule_rescan s1)
              else StartConnect drv s1)"

subsection \<open>Event handlers\<close>

datatype wifi_event_id =
    WIFI_EVENT_STA_START
  | WIFI_EVENT_SCAN_DONE
  | WIFI_EVENT_STA_DISCONNECTED
  | WIFI_EVENT_OTHER nat

definition WifiEventHandler ::
  "(wifi_ap_record_t list \<Rightarrow> wifi_ap_record_t list) \<Rightarrow> driver_reply \<Rightarrow> wifi_event_id
   \<Rightarrow> WifiStation \<Rightarrow> WifiStation option"
  where
  "WifiEventHandler srt drv event_id s =
     (case event_id of
        WIFI_EVENT_STA_START \<Rightarrow>
          Some (emit ([Esp_wifi_scan_start] @ (if on_scan_begin s then [Call_on_scan_begin] else [])) s)
      | WIFI_EVENT_SCAN_DONE \<Rightarrow>
          HandleScanResult srt drv (xEventGroupSetBits WIFI_EVENT_SCAN_DONE_BIT s)
      | WIFI_EVENT_STA_DISCONNECTED \<Rightarrow>
          let s1 = xEventGroupClearBits WIFI_EVENT_CONNECTED s;
              was = was_connected s1;
              s2 = s1\<lparr>was_connected := False\<rparr>;
              s3 = (if was \<and> on_disconnected s2 then emit [Call_on_disconnected] s2 else s2)
          in if reconnect_count s3 < MAX_RECONNECT_COUNT
             then Some (emit [Esp_wifi_connect] (s3\<lparr>reconnect_count := reconnect_count s3 + 1\<rparr>))
             else if connect_queue s3 \<noteq> [] then StartConnect drv s3
             else Some (schedule_rescan s3)
      | WIFI_EVENT_OTHER n \<Rightarrow> Some s)"

definition IpEventHandler :: "ip4_addr \<Rightarrow> WifiStation \<Rightarrow> WifiStation" where
  "IpEventHandler ip s =
     (let s1 = s\<lparr>ip_address := ntoa ip\<rparr>;
          s2 = xEventGroupSetBits WIFI_EVENT_CONNECTED s1;
          s3 = s2\<lparr>was_connected := True, reconnect_count := 0, connect_queue := [],
                  scan_current_interval_microseconds := scan_min_interval_microseconds s2\<rparr>;
          s4 = (if on_connected s3 then emit [Call_on_connected (ssid s3)] s3 else s3)
      in if needs_portal_login s4
         then emit [StartPortalLogin (pending_portal_username s4) (pending_portal_password s4)
                      (ssid s4)] s4
         else s4)"

text \<open>The callback of the scan timer created in \<open>Start\<close>.\<close>

definition scan_timer_callback :: "WifiStation \<Rightarrow> WifiStation" where
  "scan_timer_callback s = (if \<not> IsConnected s then emit [Esp_wifi_scan_start] s else s)"

definition Stop :: "WifiStation \<Rightarrow> WifiStation" where
  "Stop s =
     (let s1 = (if instance_any_id s
                then (emit [Unregister_wifi_events] s)\<lparr>instance_any_id := False\<rparr> else s);
          s2 = (if instance_got_ip s1
                then (emit [Unregister_ip_events] s1)\<lparr>instance_got_ip := False\<rparr> else s1);
          s3 = (if timer_handle s2
                then (emit [Esp_timer_stop_delete] s2)\<lparr>timer_handle := False\<rparr> else s2);
          s4 = emit [Esp_wifi_scan_stop, Esp_wifi_disconnect, Esp_wifi_stop] s3;
          s5 = (if station_netif s4
                then (emit [Netif_destroy] s4)\<lparr>station_netif := False\<rparr> else s4);
          s6 = s5\<lparr>was_connected := False\<rparr>
      in xEventGroupSetBits WIFI_EVENT_STOPPED (xEventGroupClearBits WIFI_EVENT_CONNECTED s6))"

subsection \<open>The state machine\<close>

text \<open>
  One event of the event loop: a Wi-Fi event with what the collaborators answer during its
  handler, the IP event with the address acquired, or the expiry of the scan timer.
\<close>

datatype event =
    Wifi_event wifi_event_id driver_reply
  | Ip_event_sta_got_ip ip4_addr
  | Scan_timer_expired

fun step ::
  "(wifi_ap_record_t list \<Rightarrow> wifi_ap_record_t list) \<Rightarrow> WifiStation \<Rightarrow> event \<Rightarrow> WifiStation option"
  where
  "step srt s (Wifi_event event_id drv) = WifiEventHandler srt drv event_id s"
| "step srt s (Ip_event_sta_got_ip ip) = Some (IpEventHandler ip s)"
| "step srt s Scan_timer_expired = Some (scan_timer_callback s)"

fun run ::
  "(wifi_ap_record_t list \<Rightarrow> wifi_ap_record_t list) \<Rightarrow> WifiStation \<Rightarrow> event list
   \<Rightarrow> WifiStation option"
  where
  "run srt s [] = Some s"
| "run srt s (e # es) = (case step srt s e of None \<Rightarrow> None | Some s' \<Rightarrow> run srt s' es)"

section \<open>The bounded wait\<close>

text \<open>
  \<open>xEventGroupWaitBits(group, bits, pdFALSE, pdFALSE, ticks)\<close> of the kernel, as its
  documentation has it: the call returns as soon as one of \<open>bits\<close> is set in the event
  group, at the latest after \<open>ticks\<close> ticks, with the value the group has then. The group
  is given by its value \<open>g t\<close> at every tick \<open>t\<close> after the call; the result is the number of
  ticks the caller was blocked and the value returned.
\<close>

fun xEventGroupWaitBits :: "(nat \<Rightarrow> EventBits_t) \<Rightarrow> EventBits_t \<Rightarrow> nat \<Rightarrow> nat \<times> EventBits_t"
  where
  "xEventGroupWaitBits g bits 0 = (0, g 0)"
| "xEventGroupWaitBits g bits (Suc n) =
     (if g 0 AND bits \<noteq> 0 then (0, g 0)
      else case xEventGroupWaitBits (\<lambda>t. g (Suc t)) bits n of (t, v) \<Rightarrow> (Suc t, v))"

text \<open>
  \<open>WaitForConnected\<close>. The quotient \<open>timeout_ms / portTICK_PERIOD_MS\<close> is taken in
  \<open>TickType_t\<close>, an unsigned 32-bit type, to which \<open>timeout_ms\<close> is converted. The first
  component of the result is the number of ticks the call blocked.
\<close>

definition WaitForConnected :: "nat \<Rightarrow> (nat \<Rightarrow> EventBits_t) \<Rightarrow> int \<Rightarrow> nat \<times> bool" where
  "WaitForConnected portTICK_PERIOD_MS g timeout_ms =
     (case xEventGroupWaitBits g (WIFI_EVENT_CONNECTED OR WIFI_EVENT_STOPPED)
             (nat (timeout_ms mod 2 ^ 32) div portTICK_PERIOD_MS) of
        (t, bits) \<Rightarrow> (t, bits AND WIFI_EVENT_CONNECTED \<noteq> 0))"

section \<open>The captive-portal task of \<open>StartPortalLogin\<close>\<close>

text \<open>
  What the network answers to the task: the reply to the GET probe of a URL, the first
  address \<open>gethostbyname\<close> finds for a host name (\<open>None\<close> when it finds none), and the
  gateway of the station interface (\<open>None\<close> when the interface or its IP info is missing).
\<close>

record http_reply =
  perform_ok :: bool  \<comment> \<open>\<open>esp_http_client_perform\<close> returned \<open>ESP_OK\<close>\<close>
  status_code :: int
  location_header :: "string option"
    \<comment> \<open>what \<open>esp_http_client_get_header\<close> hands over for \<open>Location\<close>, if anything\<close>
  content_length :: int

record portal_env =
  http_get :: "string \<Rightarrow> http_reply"
  gethostbyname :: "string \<Rightarrow> ip4_addr option"
  gateway :: "ip4_addr option"

text \<open>The two locals that the lambda \<open>check_redirect\<close> captures by reference.\<close>

record detection =
  login_url :: string
  is_hijacked_200 :: bool

text \<open>The three \<open>strncmp\<close> tests on the printed address.\<close>

definition private_prefix :: "string \<Rightarrow> bool" where
  "private_prefix ip =
     (strncmp_eq ip ''10.'' 3 \<or> strncmp_eq ip ''192.168'' 7 \<or> strncmp_eq ip ''172.'' 4)"

text \<open>
  Resolve \<open>host\<close> and, when the printed address passes the prefix tests, set the login URL;
  the first component is the new value of \<open>found\<close>.
\<close>

definition resolve_login :: "portal_env \<Rightarrow> string \<Rightarrow> detection \<Rightarrow> bool \<times> detection" where
  "resolve_login env host st =
     (case gethostbyname env host of
        Some addr \<Rightarrow>
          let ip = ntoa addr
          in if private_prefix ip
             then (True, st\<lparr>login_url := ''http://'' @ ip @ ''/login''\<rparr>)
             else (False, st)
      | None \<Rightarrow> (False, st))"

definition check_redirect :: "portal_env \<Rightarrow> string \<Rightarrow> detection \<Rightarrow> bool \<times> detection" where
  "check_redirect env url st =
     (let r = http_get env url
      in if perform_ok r
         then if status_code r = 302 \<or> status_code r = 301
              then (case location_header r of
                      Some loc \<Rightarrow> (True, st\<lparr>login_url := c_str loc\<rparr>)
                    | None \<Rightarrow> (False, st))
              else if status_code r = 200
              then if strstr_found url ''generate_204''
                   then resolve_login env ''connect.rom.miui.com'' (st\<lparr>is_hijacked_200 := True\<rparr>)
                   else if strstr_found url ''captive.apple.com''
                   then if content_length r > 0 \<and> content_length r < 200
                        then (False, st)
                        else resolve_login env ''captive.apple.com'' (st\<lparr>is_hijacked_200 := True\<rparr>)
                   else (False, st)
              else (False, st)
         else (False, st))"

text \<open>Steps 1 to 3 of the task: the two probes and the fallback strategies.\<close>

definition detect_login_url :: "portal_env \<Rightarrow> string \<Rightarrow> detection" where
  "detect_login_url env current_ssid =
     (let st0 = \<lparr>login_url = [], is_hijacked_200 = False\<rparr>;
          (detected1, st1) = check_redirect env ''http://connect.rom.miui.com/generate_204'' st0;
          (detected2, st2) = (if \<not> detected1 then check_redirect env ''http://captive.apple.com/'' st1
                              else (detected1, st1))
      in if \<not> detected2 \<and> (is_hijacked_200 st2 \<or> str_contains current_ssid ''BUPT'')
         then if current_ssid = ''BUPT-portal'' \<or> current_ssid = ''BUPT-mobile''
              then st2\<lparr>login_url := ''http://10.3.8.216/login''\<rparr>
              else (case gateway env of
                      Some gw \<Rightarrow> st2\<lparr>login_url := ''http://'' @ ntoa gw @ ''/login''\<rparr>
                    | None \<Rightarrow> st2)
         else st2)"

text \<open>The POST request handed to the HTTP client.\<close>

record http_request =
  req_url :: string
  req_method :: string
  req_timeout_ms :: int
  req_headers :: "(string \<times> string) list"
  req_body :: string

definition post_url_of :: "string \<Rightarrow> string" where
  "post_url_of url =
     (if \<not> str_contains url ''login''
      then (if last url = CHR ''/'' then url @ ''login'' else url @ ''/login'')
      else url)"

text \<open>Step 4: \<open>None\<close> when no login URL was determined and the login is skipped.\<close>

definition login_post :: "string \<Rightarrow> string \<Rightarrow> string \<Rightarrow> http_request option" where
  "login_post user pass url =
     (if url \<noteq> []
      then Some \<lparr>req_url = c_str (post_url_of url),
                  req_method = ''POST'',
                  req_timeout_ms = 8000,
                  req_headers = [(''User-Agent'', ''Mozilla/5.0 (Windows NT 10.0; Win64; x64)''),
                                 (''Content-Type'', ''application/x-www-form-urlencoded'')],
                  req_body = ''user='' @ user @ ''&pass='' @ pass\<rparr>
      else None)"

definition PortalLoginTask :: "portal_env \<Rightarrow> string \<Rightarrow> string \<Rightarrow> string \<Rightarrow> http_request option"
  where
  "PortalLoginTask env user pass current_ssid =
     login_post user pass (login_url (detect_login_url env current_ssid))"

section \<open>Vocabulary of the specification\<close>

text \<open>
  Predicates and lists in which the properties below are stated. They are not part of the
  program.
\<close>

text \<open>
  The private ranges as the specification names them: 10.0.0.0/8, 172.16.0.0/12 and
  192.168.0.0/16.
\<close>

definition spec_private_range :: "ip4_addr \<Rightarrow> bool" where
  "spec_private_range ip = (case ip of (a, b, c, d) \<Rightarrow>
     a = 10 \<or> (a = 172 \<and> 16 \<le> unat b \<and> unat b \<le> 31) \<or> (a = 192 \<and> b = 168))"













text \<open>The two enterprise modes.\<close>

definition enterprise_mode :: "wifi_auth_mode_t \<Rightarrow> bool" where
  "enterprise_mode m = (m = WIFI_AUTH_WPA2_ENTERPRISE \<or> m = WIFI_AUTH_WPA2_WPA3_ENTERPRISE)"

text \<open>A scan result whose ssid matches a known network entry.\<close>

definition known_ssid :: "SsidItem list \<Rightarrow> wifi_ap_record_t \<Rightarrow> bool" where
  "known_ssid sl ap_record = (\<exists>item \<in> set sl. ssid_matches ap_record item)"

text \<open>The candidate that joins a scan result with its first matching known network entry.\<close>

definition candidate_of :: "SsidItem list \<Rightarrow> wifi_ap_record_t \<Rightarrow> WifiApRecord option" where
  "candidate_of sl ap_record = map_option (\<lambda>it. make_record it ap_record) (find (ssid_matches ap_record) sl)"

text \<open>The matching scan results, in the order of the sorted records.\<close>

definition ranked_matches ::
  "(wifi_ap_record_t list \<Rightarrow> wifi_ap_record_t list) \<Rightarrow> driver_reply \<Rightarrow> wifi_ap_record_t list"
  where
  "ranked_matches srt drv = filter (known_ssid (ssid_list drv)) (srt (scan_ap_records drv))"

text \<open>The disconnect event, and \<open>k\<close> of them in a row.\<close>

definition disconnects :: "nat \<Rightarrow> driver_reply \<Rightarrow> event list" where
  "disconnects k drv = replicate k (Wifi_event WIFI_EVENT_STA_DISCONNECTED drv)"

text \<open>
  The station after \<open>k > 0\<close> disconnect events that each re-issued the connect command:
  the connected bit and the "was connected" flag are cleared, the callback was called once
  if the station had been connected, and \<open>k\<close> connect commands were issued.
\<close>

definition retried :: "nat \<Rightarrow> WifiStation \<Rightarrow> WifiStation" where
  "retried k s =
     (if k = 0 then s
      else s\<lparr>event_group := event_group s AND NOT WIFI_EVENT_CONNECTED,
             was_connected := False,
             reconnect_count := reconnect_count s + int k,
             trace := trace s
               @ (if was_connected s \<and> on_disconnected s then [Call_on_disconnected] else [])
               @ replicate k Esp_wifi_connect\<rparr>)"

text \<open>
  A scan range that the doubling cannot overflow: \<open>0 \<le> min \<le> max \<le> 2^30\<close> microseconds,
  with the current interval between 0 and the maximum.
\<close>

definition interval_inv :: "WifiStation \<Rightarrow> bool" where
  "interval_inv s =
     (0 \<le> scan_min_interval_microseconds s \<and>
      scan_min_interval_microseconds s \<le> scan_max_interval_microseconds s \<and>
      scan_max_interval_microseconds s \<le> 2 ^ 30 \<and>
      0 \<le> scan_current_interval_microseconds s \<and>
      scan_current_interval_microseconds s \<le> scan_max_interval_microseconds s)"

section \<open>Concrete stations and replies\<close>

text \<open>
  A started station with every callback registered and a scan range of 10 s to 300 s.
\<close>

definition example_station :: WifiStation where
  "example_station = \<lparr>event_group = 0, ssid = [], password = [], ip_address = [],
     connect_queue = [], reconnect_count = 0, was_connected = False,
     needs_portal_login = False, pending_portal_username = [], pending_portal_password = [],
     scan_min_interval_microseconds = 10000000, scan_max_interval_microseconds = 300000000,
     scan_current_interval_microseconds = 10000000, remember_bssid = 0,
     on_scan_begin = True, on_connect = True, on_connected = True, on_disconnected = True,
     instance_any_id = True, instance_got_ip = True, timer_handle = True, station_netif = True,
     trace = []\<rparr>"

definition cafe_ap :: wifi_ap_record_t where
  "cafe_ap = \<lparr>ap_bssid = [1, 2, 3, 4, 5, 6], ap_ssid = ''CafeWifi'', ap_primary = 6,
     ap_rssi = - 50, ap_authmode = WIFI_AUTH_OPEN\<rparr>"

definition other_ap :: wifi_ap_record_t where
  "other_ap = \<lparr>ap_bssid = [6, 5, 4, 3, 2, 1], ap_ssid = ''OtherNet'', ap_primary = 11,
     ap_rssi = - 40, ap_authmode = WIFI_AUTH_OPEN\<rparr>"

definition cafe_item :: SsidItem where
  "cafe_item = \<lparr>item_ssid = ''CafeWifi'', item_password = ''secret'', item_username = ''guest''\<rparr>"

text \<open>The replies of a scan that found both access points, every driver call succeeding.\<close>

definition cafe_scan :: driver_reply where
  "cafe_scan = \<lparr>ssid_list = [cafe_item], scan_ap_records = [cafe_ap, other_ap],
     set_config_ok = True, connect_ok = True, sta_ap_info = None\<rparr>"

text \<open>The replies of a scan that found nothing.\<close>

definition empty_scan :: driver_reply where
  "empty_scan = \<lparr>ssid_list = [cafe_item], scan_ap_records = [],
     set_config_ok = True, connect_ok = True, sta_ap_info = None\<rparr>"

text \<open>
  A second known network, seen with the same signal strength as \<open>cafe_ap\<close>, and the
  replies of a scan that found the two in the order \<open>cafe_ap\<close>, \<open>home_ap\<close>.
\<close>

definition home_ap :: wifi_ap_record_t where
  "home_ap = \<lparr>ap_bssid = [9, 9, 9, 9, 9, 9], ap_ssid = ''HomeWifi'', ap_primary = 1,
     ap_rssi = - 50, ap_authmode = WIFI_AUTH_WPA2_PSK\<rparr>"

definition home_item :: SsidItem where
  "home_item = \<lparr>item_ssid = ''HomeWifi'', item_password = ''hunter2'', item_username = []\<rparr>"

definition tie_scan :: driver_reply where
  "tie_scan = \<lparr>ssid_list = [cafe_item, home_item], scan_ap_records = [cafe_ap, home_ap],
     set_config_ok = True, connect_ok = True, sta_ap_info = None\<rparr>"

text \<open>
  Two implementations that meet \<open>std_sort_contract\<close>: insertion sort by descending
  signal strength, which keeps the order of equal elements, and the same sort started from
  the reversed input, which reverses it.
\<close>

definition stable_sort_rssi :: "wifi_ap_record_t list \<Rightarrow> wifi_ap_record_t list" where
  "stable_sort_rssi xs = sort_key (\<lambda>a. - sint (ap_rssi a)) xs"

definition reversing_sort_rssi :: "wifi_ap_record_t list \<Rightarrow> wifi_ap_record_t list" where
  "reversing_sort_rssi xs = sort_key (\<lambda>a. - sint (ap_rssi a)) (rev xs)"

text \<open>
  A candidate without username on an enterprise network, and the candidate that
  \<open>HandleScanResult\<close> builds for \<open>cafe_ap\<close>.
\<close>

definition corp_candidate :: WifiApRecord where
  "corp_candidate = \<lparr>rec_ssid = ''Corp'', rec_password = ''pw'', rec_username = [],
     rec_channel = 1, rec_authmode = WIFI_AUTH_WPA2_ENTERPRISE, rec_bssid = [1, 2, 3, 4, 5, 6]\<rparr>"

definition cafe_candidate :: WifiApRecord where
  "cafe_candidate = make_record cafe_item cafe_ap"

text \<open>
  A network that answers every probe with HTTP 200 and an empty body and resolves
  \<open>connect.rom.miui.com\<close> to \<open>addr\<close>; and one that answers every probe with a redirect to
  \<open>loc\<close>.
\<close>

definition hijack_env :: "ip4_addr \<Rightarrow> portal_env" where
  "hijack_env addr =
     \<lparr>http_get = (\<lambda>url. \<lparr>perform_ok = True, status_code = 200, location_header = None,
                             content_length = 0\<rparr>),
      gethostbyname = (\<lambda>host. if host = ''connect.rom.miui.com'' then Some addr else None),
      gateway = None\<rparr>"


section \<open>Properties\<close>

subsection \<open>Event bits\<close>

lemma connected_bit_nonzero: "WIFI_EVENT_CONNECTED \<noteq> 0"
  by (simp add: WIFI_EVENT_CONNECTED_def)

lemma connected_bit_cleared_idem:
  "(w AND NOT WIFI_EVENT_CONNECTED) AND NOT WIFI_EVENT_CONNECTED = w AND NOT WIFI_EVENT_CONNECTED"
  by (simp add: word_bw_assocs)

lemma connected_bit_cleared:
  "(w AND NOT WIFI_EVENT_CONNECTED) AND WIFI_EVENT_CONNECTED = 0"
  by (simp add: word_bw_assocs)

lemma stopped_keeps_connected:
  "(w OR WIFI_EVENT_STOPPED) AND WIFI_EVENT_CONNECTED = w AND WIFI_EVENT_CONNECTED"
  unfolding WIFI_EVENT_STOPPED_def WIFI_EVENT_CONNECTED_def
  by (simp add: bit.conj_disj_distrib2)

subsection \<open>The signal-strength and channel queries\<close>

text \<open>
  C10. When the station is not connected, or the driver's AP-info query fails, \<open>GetRssi\<close>
  and \<open>GetChannel\<close> both return 0 and the station is as it was.
\<close>

theorem queries_return_zero:
  "\<not> IsConnected s \<or> sta_ap_info drv = None \<Longrightarrow>
   GetRssi drv s = (0, s) \<and> GetChannel drv s = (0, s)"
  by (auto simp: GetRssi_def GetChannel_def)

theorem queries_return_zero_witness:
  "\<not> IsConnected example_station \<and>
   GetRssi cafe_scan example_station = (0, example_station) \<and>
   GetChannel cafe_scan example_station = (0, example_station)"
  using queries_return_zero [of example_station cafe_scan]
  by (simp add: IsConnected_def example_station_def)

subsection \<open>\<open>StartConnect\<close>\<close>

lemma StartConnect_pop:
  assumes "connect_queue s = c # q" and "set_config_ok drv" and "connect_ok drv"
  shows "StartConnect drv s =
     Some (s\<lparr>connect_queue := q, ssid := rec_ssid c, password := rec_password c,
              needs_portal_login := needs_portal_of c,
              pending_portal_username := (if needs_portal_of c then rec_username c else []),
              pending_portal_password := (if needs_portal_of c then rec_password c else []),
              reconnect_count := 0,
              trace := trace s @ (if on_connect s then [Call_on_connect (rec_ssid c)] else [])
                 @ [Esp_wifi_disconnect] @ enterprise_setup c
                 @ [Esp_wifi_set_config (make_wifi_config (remember_bssid s) c), Esp_wifi_connect]\<rparr>)"
  using assms by (simp add: StartConnect_def Let_def emit_def)

text \<open>
  C8, as the code has it. A candidate popped for a connect attempt is treated as enterprise
  exactly when it has a non-empty username and its auth mode is WPA2-enterprise or
  WPA2/WPA3-enterprise: then identity, username and password are set and enterprise
  authentication is enabled, otherwise it is disabled. It is flagged for the portal login
  exactly when it has a non-empty username and its auth mode is not an enterprise mode, and
  the pending portal credentials are then its username and password.
\<close>

theorem classification:
  assumes "connect_queue s = c # q" and "set_config_ok drv" and "connect_ok drv"
  shows "\<exists>s'. StartConnect drv s = Some s' \<and>
     trace s' = trace s @ (if on_connect s then [Call_on_connect (rec_ssid c)] else [])
        @ [Esp_wifi_disconnect]
        @ (if rec_username c \<noteq> [] \<and> enterprise_mode (rec_authmode c)
           then [Wpa2_ent_set_identity (rec_username c), Wpa2_ent_set_username (rec_username c),
                 Wpa2_ent_set_password (rec_password c), Wpa2_ent_enable]
           else [Wpa2_ent_disable])
        @ [Esp_wifi_set_config (make_wifi_config (remember_bssid s) c), Esp_wifi_connect] \<and>
     needs_portal_login s' = (rec_username c \<noteq> [] \<and> \<not> enterprise_mode (rec_authmode c)) \<and>
     (needs_portal_login s' \<longrightarrow>
        pending_portal_username s' = rec_username c \<and> pending_portal_password s' = rec_password c)"
  using StartConnect_pop [OF assms]
  by (auto simp: enterprise_setup_def is_enterprise_of_def needs_portal_of_def enterprise_mode_def)

theorem classification_witness:
  "\<exists>s'. StartConnect cafe_scan (example_station\<lparr>connect_queue := [cafe_candidate]\<rparr>) = Some s' \<and>
     needs_portal_login s' \<and> pending_portal_username s' = ''guest'' \<and>
     Wpa2_ent_disable \<in> set (trace s')"
  using classification [of "example_station\<lparr>connect_queue := [cafe_candidate]\<rparr>"
      cafe_candidate "[]" cafe_scan]
  by (auto simp add: cafe_scan_def cafe_candidate_def make_record_def cafe_item_def cafe_ap_def
      enterprise_mode_def example_station_def)

text \<open>
  The claim as written fails for a WPA2-enterprise candidate without username: enterprise
  authentication is disabled and the password goes into the station configuration.
\<close>

theorem classification_counterexample:
  "enterprise_mode (rec_authmode corp_candidate) \<and>
   map_option trace (StartConnect empty_scan (example_station\<lparr>connect_queue := [corp_candidate]\<rparr>))
     = Some [Call_on_connect ''Corp'', Esp_wifi_disconnect, Wpa2_ent_disable,
             Esp_wifi_set_config \<lparr>sta_ssid = ''Corp'', sta_password = ''pw'', sta_channel = 0,
                sta_bssid = [0, 0, 0, 0, 0, 0], sta_bssid_set = False, sta_listen_interval = 3\<rparr>,
             Esp_wifi_connect]"
  by (simp add: StartConnect_def Let_def emit_def example_station_def corp_candidate_def
      empty_scan_def enterprise_setup_def is_enterprise_of_def needs_portal_of_def
      enterprise_mode_def make_wifi_config_def zero_config_def strlcpy_def c_str_def NUL_def
      numeral_eq_Suc)

subsection \<open>The IP event\<close>

text \<open>
  C4. After the IP-acquired event the candidate queue is empty, the retry counter is 0, the
  backoff interval is the configured minimum, the station was connected and is connected,
  and the \<open>on_connected\<close> callback, when one is registered, has been called during the
  handler with the current ssid.
\<close>

theorem ip_acquired:
  "connect_queue (IpEventHandler ip s) = [] \<and>
   reconnect_count (IpEventHandler ip s) = 0 \<and>
   scan_current_interval_microseconds (IpEventHandler ip s) = scan_min_interval_microseconds s \<and>
   scan_min_interval_microseconds (IpEventHandler ip s) = scan_min_interval_microseconds s \<and>
   was_connected (IpEventHandler ip s) \<and>
   IsConnected (IpEventHandler ip s) \<and>
   ssid (IpEventHandler ip s) = ssid s \<and>
   (on_connected s \<longrightarrow>
      Call_on_connected (ssid (IpEventHandler ip s))
        \<in> set (drop (length (trace s)) (trace (IpEventHandler ip s))))"
  by (simp add: IpEventHandler_def Let_def emit_def xEventGroupSetBits_def IsConnected_def
      connected_bit_nonzero)

subsection \<open>Retry on disconnect\<close>

lemma disconnect_retry:
  assumes "reconnect_count s < 5"
  shows "WifiEventHandler srt drv WIFI_EVENT_STA_DISCONNECTED s = Some (retried 1 s)"
  using assms
  by (simp add: WifiEventHandler_def Let_def xEventGroupClearBits_def emit_def retried_def
      MAX_RECONNECT_COUNT_def)

lemma disconnect_exhausted:
  assumes "\<not> reconnect_count s < 5"
  shows "WifiEventHandler srt drv WIFI_EVENT_STA_DISCONNECTED s =
     (let s3 = s\<lparr>event_group := event_group s AND NOT WIFI_EVENT_CONNECTED,
                  was_connected := False,
                  trace := trace s
                    @ (if was_connected s \<and> on_disconnected s then [Call_on_disconnected] else [])\<rparr>
      in if connect_queue s \<noteq> [] then StartConnect drv s3 else Some (schedule_rescan s3))"
  using assms
  by (simp add: WifiEventHandler_def Let_def xEventGroupClearBits_def emit_def
      MAX_RECONNECT_COUNT_def)

lemma retried_Suc: "retried k (retried 1 s) = retried (Suc k) s"
  by (simp add: retried_def connected_bit_cleared_idem replicate_app_Cons_same)

lemma run_retries:
  "reconnect_count s + int k \<le> 5 \<Longrightarrow> run srt s (disconnects k drv) = Some (retried k s)"
proof (induction k arbitrary: s)
  case 0
  show ?case by (simp add: disconnects_def retried_def)
next
  case (Suc k)
  have lt: "reconnect_count s < 5" using Suc.prems by simp
  have rc: "reconnect_count (retried 1 s) + int k \<le> 5"
    using Suc.prems by (simp add: retried_def)
  have "run srt s (disconnects (Suc k) drv) = run srt (retried 1 s) (disconnects k drv)"
    by (simp add: disconnects_def disconnect_retry [OF lt])
  also have "\<dots> = Some (retried k (retried 1 s))"
    by (rule Suc.IH [OF rc])
  finally show ?case by (simp only: retried_Suc)
qed

lemma run_append:
  "run srt s (es @ fs) = (case run srt s es of None \<Rightarrow> None | Some s' \<Rightarrow> run srt s' fs)"
  by (induction es arbitrary: s) (auto split: option.splits)

lemma disconnects_Suc: "disconnects (Suc k) drv = disconnects k drv @ disconnects 1 drv"
  by (simp add: disconnects_def replicate_append_same)

lemma count_list_replicate: "count_list (replicate n x) x = n"
  by (induction n) auto

lemma exhausted_empty_queue:
  assumes "\<not> reconnect_count s < 5" and "connect_queue s = []"
  shows "\<exists>s'. WifiEventHandler srt drv WIFI_EVENT_STA_DISCONNECTED s = Some s' \<and>
     reconnect_count s' = reconnect_count s \<and> connect_queue s' = [] \<and> ssid s' = ssid s \<and>
     password s' = password s \<and>
     trace s' = trace s
       @ (if was_connected s \<and> on_disconnected s then [Call_on_disconnected] else [])
       @ [Esp_timer_start_once (scan_current_interval_microseconds s)]"
  using assms
  by (simp add: WifiEventHandler_def Let_def xEventGroupClearBits_def emit_def
      MAX_RECONNECT_COUNT_def schedule_rescan_def UpdateScanInterval_def)

lemma disconnect_advance:
  assumes "\<not> reconnect_count s < 5" and "connect_queue s = c # q"
    and "set_config_ok drv" and "connect_ok drv"
  shows "\<exists>s'. WifiEventHandler srt drv WIFI_EVENT_STA_DISCONNECTED s = Some s' \<and>
     ssid s' = rec_ssid c \<and> password s' = rec_password c \<and> connect_queue s' = q \<and>
     reconnect_count s' = 0 \<and>
     trace s' = trace s
       @ (if was_connected s \<and> on_disconnected s then [Call_on_disconnected] else [])
       @ (if on_connect s then [Call_on_connect (rec_ssid c)] else [])
       @ [Esp_wifi_disconnect] @ enterprise_setup c
       @ [Esp_wifi_set_config (make_wifi_config (remember_bssid s) c), Esp_wifi_connect]"
  using assms
  by (simp add: WifiEventHandler_def Let_def xEventGroupClearBits_def emit_def
      MAX_RECONNECT_COUNT_def StartConnect_def)

lemma run_exhausted_empty_queue:
  "\<not> reconnect_count s < 5 \<Longrightarrow> connect_queue s = [] \<Longrightarrow>
   \<exists>s'. run srt s (disconnects n drv) = Some s' \<and> connect_queue s' = [] \<and> ssid s' = ssid s \<and>
     password s' = password s \<and>
     count_list (trace s') Esp_wifi_connect = count_list (trace s) Esp_wifi_connect"
proof (induction n arbitrary: s)
  case 0
  then show ?case by (simp add: disconnects_def)
next
  case (Suc n)
  obtain s1 where s1: "WifiEventHandler srt drv WIFI_EVENT_STA_DISCONNECTED s = Some s1"
      "reconnect_count s1 = reconnect_count s" "connect_queue s1 = []" "ssid s1 = ssid s"
      "password s1 = password s"
      "trace s1 = trace s
         @ (if was_connected s \<and> on_disconnected s then [Call_on_disconnected] else [])
         @ [Esp_timer_start_once (scan_current_interval_microseconds s)]"
    using exhausted_empty_queue [OF Suc.prems] by blast
  have "\<not> reconnect_count s1 < 5" using s1(2) Suc.prems(1) by simp
  from Suc.IH [OF this s1(3)] obtain s' where
    s': "run srt s1 (disconnects n drv) = Some s'" "connect_queue s' = []" "ssid s' = ssid s1"
      "password s' = password s1"
      "count_list (trace s') Esp_wifi_connect = count_list (trace s1) Esp_wifi_connect"
    by blast
  have "run srt s (disconnects (Suc n) drv) = Some s'"
    using s1(1) s'(1) by (simp add: disconnects_def)
  moreover have "count_list (trace s1) Esp_wifi_connect = count_list (trace s) Esp_wifi_connect"
    using s1(6) by simp
  ultimately show ?case using s' s1 Suc.prems by simp
qed

text \<open>
  C2. From a station whose retry counter is 0, as \<open>StartConnect\<close> leaves it, each of the
  first five disconnect events re-issues the connect command for the same candidate: after
  \<open>k \<le> 5\<close> of them the ssid, password and queue are unchanged, the counter is \<open>k\<close> and
  exactly \<open>k\<close> connect commands were issued. The next, sixth, disconnect event issues no
  further connect command for that candidate: it pops the next queued candidate and connects
  to it, or, when the queue is empty, starts the rescan timer with the current backoff
  interval. With an empty queue, any number \<open>n\<close> of disconnect events issues \<open>min n 5\<close>
  connect commands.
\<close>

theorem retry_bound:
  assumes "reconnect_count s = 0"
  shows "(\<forall>k\<le>5. \<exists>sk. run srt s (disconnects k drv) = Some sk \<and>
            ssid sk = ssid s \<and> password sk = password s \<and>
            connect_queue sk = connect_queue s \<and> reconnect_count sk = int k \<and>
            trace sk = trace s
              @ (if 0 < k \<and> was_connected s \<and> on_disconnected s then [Call_on_disconnected] else [])
              @ replicate k Esp_wifi_connect) \<and>
         (\<forall>c q. connect_queue s = c # q \<and> set_config_ok drv \<and> connect_ok drv \<longrightarrow>
            (\<exists>s6. run srt s (disconnects 6 drv) = Some s6 \<and>
               ssid s6 = rec_ssid c \<and> password s6 = rec_password c \<and> connect_queue s6 = q \<and>
               reconnect_count s6 = 0 \<and>
               trace s6 = trace s
                 @ (if was_connected s \<and> on_disconnected s then [Call_on_disconnected] else [])
                 @ replicate 5 Esp_wifi_connect
                 @ (if on_connect s then [Call_on_connect (rec_ssid c)] else [])
                 @ [Esp_wifi_disconnect] @ enterprise_setup c
                 @ [Esp_wifi_set_config (make_wifi_config (remember_bssid s) c), Esp_wifi_connect])) \<and>
         (connect_queue s = [] \<longrightarrow>
            (\<exists>s6. run srt s (disconnects 6 drv) = Some s6 \<and>
               ssid s6 = ssid s \<and> password s6 = password s \<and> connect_queue s6 = [] \<and>
               trace s6 = trace s
                 @ (if was_connected s \<and> on_disconnected s then [Call_on_disconnected] else [])
                 @ replicate 5 Esp_wifi_connect
                 @ [Esp_timer_start_once (scan_current_interval_microseconds s)]) \<and>
            (\<forall>n. \<exists>sn. run srt s (disconnects n drv) = Some sn \<and>
               ssid sn = ssid s \<and> password sn = password s \<and>
               count_list (trace sn) Esp_wifi_connect
                 = count_list (trace s) Esp_wifi_connect + min n 5))"
proof (intro conjI allI impI)
  fix k :: nat
  assume "k \<le> 5"
  then have "run srt s (disconnects k drv) = Some (retried k s)"
    using assms by (intro run_retries) simp
  then show "\<exists>sk. run srt s (disconnects k drv) = Some sk \<and>
            ssid sk = ssid s \<and> password sk = password s \<and>
            connect_queue sk = connect_queue s \<and> reconnect_count sk = int k \<and>
            trace sk = trace s
              @ (if 0 < k \<and> was_connected s \<and> on_disconnected s then [Call_on_disconnected] else [])
              @ replicate k Esp_wifi_connect"
    using assms by (simp add: retried_def)
next
  have five: "run srt s (disconnects 5 drv) = Some (retried 5 s)"
    using assms by (intro run_retries) simp
  have six: "run srt s (disconnects 6 drv)
      = WifiEventHandler srt drv WIFI_EVENT_STA_DISCONNECTED (retried 5 s)"
    using five run_append [of srt s "disconnects 5 drv" "disconnects 1 drv"]
      disconnects_Suc [of 5 drv]
    by (simp add: disconnects_def split: option.splits)
  have ex: "\<not> reconnect_count (retried 5 s) < 5"
    using assms by (simp add: retried_def)
  {
    fix c q
    assume a: "connect_queue s = c # q \<and> set_config_ok drv \<and> connect_ok drv"
    show "\<exists>s6. run srt s (disconnects 6 drv) = Some s6 \<and>
               ssid s6 = rec_ssid c \<and> password s6 = rec_password c \<and> connect_queue s6 = q \<and>
               reconnect_count s6 = 0 \<and>
               trace s6 = trace s
                 @ (if was_connected s \<and> on_disconnected s then [Call_on_disconnected] else [])
                 @ replicate 5 Esp_wifi_connect
                 @ (if on_connect s then [Call_on_connect (rec_ssid c)] else [])
                 @ [Esp_wifi_disconnect] @ enterprise_setup c
                 @ [Esp_wifi_set_config (make_wifi_config (remember_bssid s) c), Esp_wifi_connect]"
    proof -
      have q5: "connect_queue (retried 5 s) = c # q" using a by (simp add: retried_def)
      obtain s6 where s6: "WifiEventHandler srt drv WIFI_EVENT_STA_DISCONNECTED (retried 5 s) = Some s6"
          "ssid s6 = rec_ssid c" "password s6 = rec_password c" "connect_queue s6 = q"
          "reconnect_count s6 = 0"
          "trace s6 = trace (retried 5 s)
             @ (if was_connected (retried 5 s) \<and> on_disconnected (retried 5 s)
                then [Call_on_disconnected] else [])
             @ (if on_connect (retried 5 s) then [Call_on_connect (rec_ssid c)] else [])
             @ [Esp_wifi_disconnect] @ enterprise_setup c
             @ [Esp_wifi_set_config (make_wifi_config (remember_bssid (retried 5 s)) c),
                Esp_wifi_connect]"
        using disconnect_advance [OF ex q5, of drv srt] a by blast
      have "trace s6 = trace s
                 @ (if was_connected s \<and> on_disconnected s then [Call_on_disconnected] else [])
                 @ replicate 5 Esp_wifi_connect
                 @ (if on_connect s then [Call_on_connect (rec_ssid c)] else [])
                 @ [Esp_wifi_disconnect] @ enterprise_setup c
                 @ [Esp_wifi_set_config (make_wifi_config (remember_bssid s) c), Esp_wifi_connect]"
        unfolding s6(6) by (simp add: retried_def)
      then show ?thesis using s6(1-5) six by simp
    qed
  }
  {
    assume e: "connect_queue s = []"
    show "\<exists>s6. run srt s (disconnects 6 drv) = Some s6 \<and>
               ssid s6 = ssid s \<and> password s6 = password s \<and> connect_queue s6 = [] \<and>
               trace s6 = trace s
                 @ (if was_connected s \<and> on_disconnected s then [Call_on_disconnected] else [])
                 @ replicate 5 Esp_wifi_connect
                 @ [Esp_timer_start_once (scan_current_interval_microseconds s)]"
    proof -
      have q5: "connect_queue (retried 5 s) = []" using e by (simp add: retried_def)
      obtain s6 where s6: "WifiEventHandler srt drv WIFI_EVENT_STA_DISCONNECTED (retried 5 s) = Some s6"
          "connect_queue s6 = []" "ssid s6 = ssid (retried 5 s)"
          "password s6 = password (retried 5 s)"
          "trace s6 = trace (retried 5 s)
             @ (if was_connected (retried 5 s) \<and> on_disconnected (retried 5 s)
                then [Call_on_disconnected] else [])
             @ [Esp_timer_start_once (scan_current_interval_microseconds (retried 5 s))]"
        using exhausted_empty_queue [OF ex q5, of srt drv] by blast
      have "trace s6 = trace s
                 @ (if was_connected s \<and> on_disconnected s then [Call_on_disconnected] else [])
                 @ replicate 5 Esp_wifi_connect
                 @ [Esp_timer_start_once (scan_current_interval_microseconds s)]"
        unfolding s6(5) by (simp add: retried_def)
      then show ?thesis using s6(1-4) six by (simp add: retried_def)
    qed
    fix n :: nat
    show "\<exists>sn. run srt s (disconnects n drv) = Some sn \<and>
               ssid sn = ssid s \<and> password sn = password s \<and>
               count_list (trace sn) Esp_wifi_connect
                 = count_list (trace s) Esp_wifi_connect + min n 5"
    proof (cases "n \<le> 5")
      case True
      then have "run srt s (disconnects n drv) = Some (retried n s)"
        using assms by (intro run_retries) simp
      then show ?thesis using True by (simp add: retried_def count_list_replicate)
    next
      case False
      then obtain m where n: "n = 5 + m" using le_Suc_ex [of 5 n] by auto
      have q5: "connect_queue (retried 5 s) = []" using e by (simp add: retried_def)
      obtain sn where sn: "run srt (retried 5 s) (disconnects m drv) = Some sn"
          "ssid sn = ssid (retried 5 s)" "password sn = password (retried 5 s)"
          "count_list (trace sn) Esp_wifi_connect
             = count_list (trace (retried 5 s)) Esp_wifi_connect"
        using run_exhausted_empty_queue [OF ex q5, of srt m drv] by blast
      have "disconnects n drv = disconnects 5 drv @ disconnects m drv"
        unfolding n disconnects_def by (simp only: replicate_add)
      then have "run srt s (disconnects n drv) = Some sn"
        using five sn(1) by (simp add: run_append)
      moreover have "count_list (trace (retried 5 s)) Esp_wifi_connect
          = count_list (trace s) Esp_wifi_connect + 5"
        by (simp add: retried_def count_list_replicate)
      ultimately show ?thesis using sn False by (simp add: retried_def count_list_replicate)
    qed
  }
qed



theorem retry_bound_witness:
  "reconnect_count (example_station\<lparr>connect_queue := [cafe_candidate]\<rparr>) = 0 \<and>
   (\<exists>s5. run stable_sort_rssi (example_station\<lparr>connect_queue := [cafe_candidate]\<rparr>)
            (disconnects 5 cafe_scan) = Some s5 \<and>
      reconnect_count s5 = 5 \<and> connect_queue s5 = [cafe_candidate] \<and>
      trace s5 = replicate 5 Esp_wifi_connect) \<and>
   (\<exists>s6. run stable_sort_rssi (example_station\<lparr>connect_queue := [cafe_candidate]\<rparr>)
            (disconnects 6 cafe_scan) = Some s6 \<and>
      ssid s6 = ''CafeWifi'' \<and> connect_queue s6 = [] \<and> reconnect_count s6 = 0)"
proof -
  let ?s = "example_station\<lparr>connect_queue := [cafe_candidate]\<rparr>"
  have z: "reconnect_count ?s = 0" by (simp add: example_station_def)
  note rb = retry_bound [OF z, of stable_sort_rssi cafe_scan]
  have five: "\<exists>s5. run stable_sort_rssi ?s (disconnects 5 cafe_scan) = Some s5 \<and>
      reconnect_count s5 = 5 \<and> connect_queue s5 = [cafe_candidate] \<and>
      trace s5 = replicate 5 Esp_wifi_connect"
    using rb [THEN conjunct1, THEN spec, of 5] by (auto simp add: example_station_def)
  have six: "\<exists>s6. run stable_sort_rssi ?s (disconnects 6 cafe_scan) = Some s6 \<and>
      ssid s6 = ''CafeWifi'' \<and> connect_queue s6 = [] \<and> reconnect_count s6 = 0"
    using rb [THEN conjunct2, THEN conjunct1, THEN spec, THEN spec, of cafe_candidate "[]"]
    by (auto simp add: example_station_def cafe_scan_def cafe_candidate_def make_record_def
        cafe_item_def)
  show ?thesis using z five six by blast
qed

theorem ip_acquired_witness:
  "on_connected example_station \<and>
   connect_queue (IpEventHandler (192, 168, 1, 7) example_station) = [] \<and>
   IsConnected (IpEventHandler (192, 168, 1, 7) example_station) \<and>
   trace (IpEventHandler (192, 168, 1, 7) example_station) = [Call_on_connected []]"
  using ip_acquired [of "(192, 168, 1, 7)" example_station]
  by (simp add: example_station_def IpEventHandler_def Let_def emit_def xEventGroupSetBits_def)

subsection \<open>The backoff interval\<close>

lemma int32_wrap_id: "- (2 ^ 31) \<le> x \<Longrightarrow> x < 2 ^ 31 \<Longrightarrow> int32_wrap x = x"
  by (simp add: int32_wrap_def)

lemma UpdateScanInterval_fields:
  "scan_min_interval_microseconds (UpdateScanInterval s) = scan_min_interval_microseconds s"
  "scan_max_interval_microseconds (UpdateScanInterval s) = scan_max_interval_microseconds s"
  by (simp_all add: UpdateScanInterval_def Let_def)

lemma UpdateScanInterval_doubles:
  assumes "interval_inv s"
  shows "scan_current_interval_microseconds (UpdateScanInterval s)
     = min (2 * scan_current_interval_microseconds s) (scan_max_interval_microseconds s)"
proof (cases "scan_current_interval_microseconds s < scan_max_interval_microseconds s")
  case True
  have "0 \<le> scan_current_interval_microseconds s * 2"
    and "scan_current_interval_microseconds s * 2 < 2 ^ 31"
    using assms True by (simp_all add: interval_inv_def)
  then have "int32_wrap (scan_current_interval_microseconds s * 2)
      = scan_current_interval_microseconds s * 2"
    by (intro int32_wrap_id) simp_all
  then show ?thesis using True by (simp add: UpdateScanInterval_def Let_def)
next
  case False
  then show ?thesis using assms by (simp add: UpdateScanInterval_def interval_inv_def)
qed

lemma schedule_rescan_fields:
  "scan_min_interval_microseconds (schedule_rescan s) = scan_min_interval_microseconds s"
  "scan_max_interval_microseconds (schedule_rescan s) = scan_max_interval_microseconds s"
  "scan_current_interval_microseconds (schedule_rescan s)
     = scan_current_interval_microseconds (UpdateScanInterval s)"
  by (simp_all add: schedule_rescan_def UpdateScanInterval_def Let_def emit_def)

lemma StartConnect_intervals:
  assumes "StartConnect drv s = Some s'"
  shows "scan_min_interval_microseconds s' = scan_min_interval_microseconds s \<and>
         scan_max_interval_microseconds s' = scan_max_interval_microseconds s \<and>
         scan_current_interval_microseconds s' = scan_current_interval_microseconds s"
  using assms
  by (auto simp: StartConnect_def Let_def emit_def split: list.splits if_splits)

lemma ranked_queue_fields:
  "scan_min_interval_microseconds (ranked_queue srt drv s) = scan_min_interval_microseconds s"
  "scan_max_interval_microseconds (ranked_queue srt drv s) = scan_max_interval_microseconds s"
  "scan_current_interval_microseconds (ranked_queue srt drv s) = scan_current_interval_microseconds s"
  by (simp_all add: ranked_queue_def Let_def)

lemma UpdateScanInterval_cong:
  "scan_max_interval_microseconds t = scan_max_interval_microseconds s \<Longrightarrow>
   scan_current_interval_microseconds t = scan_current_interval_microseconds s \<Longrightarrow>
   scan_current_interval_microseconds (UpdateScanInterval t)
     = scan_current_interval_microseconds (UpdateScanInterval s)"
  by (simp add: UpdateScanInterval_def Let_def)


lemma sta_start_intervals:
  assumes "WifiEventHandler srt drv WIFI_EVENT_STA_START s = Some s'"
  shows "scan_min_interval_microseconds s' = scan_min_interval_microseconds s \<and>
         scan_max_interval_microseconds s' = scan_max_interval_microseconds s \<and>
         scan_current_interval_microseconds s' = scan_current_interval_microseconds s"
  using assms by (auto simp: WifiEventHandler_def emit_def)

lemma HandleScanResult_cases:
  assumes "HandleScanResult srt drv t = Some s'"
  shows "s' = schedule_rescan t \<or> s' = schedule_rescan (ranked_queue srt drv t) \<or>
         StartConnect drv (ranked_queue srt drv t) = Some s'"
proof (cases "length (scan_ap_records drv) = 0")
  case True
  then show ?thesis using assms by (simp add: HandleScanResult_def)
next
  case False
  show ?thesis
  proof (cases "connect_queue (ranked_queue srt drv t) = []")
    case True
    then show ?thesis using assms False by (simp add: HandleScanResult_def Let_def)
  next
    case nonempty: False
    then show ?thesis using assms False by (simp add: HandleScanResult_def Let_def)
  qed
qed


lemma scan_done_intervals:
  assumes "WifiEventHandler srt drv WIFI_EVENT_SCAN_DONE s = Some s'"
  shows "scan_min_interval_microseconds s' = scan_min_interval_microseconds s \<and>
         scan_max_interval_microseconds s' = scan_max_interval_microseconds s \<and>
         (scan_current_interval_microseconds s' = scan_current_interval_microseconds s \<or>
          scan_current_interval_microseconds s'
            = scan_current_interval_microseconds (UpdateScanInterval s))"
proof -
  let ?t = "xEventGroupSetBits WIFI_EVENT_SCAN_DONE_BIT s"
  have t: "scan_min_interval_microseconds ?t = scan_min_interval_microseconds s"
    "scan_max_interval_microseconds ?t = scan_max_interval_microseconds s"
    "scan_current_interval_microseconds ?t = scan_current_interval_microseconds s"
    by (simp_all add: xEventGroupSetBits_def)
  have h: "HandleScanResult srt drv ?t = Some s'"
    using assms by (simp add: WifiEventHandler_def)
  have u1: "scan_current_interval_microseconds (UpdateScanInterval ?t)
     = scan_current_interval_microseconds (UpdateScanInterval s)"
    by (rule UpdateScanInterval_cong [OF t(2) t(3)])
  have u2: "scan_current_interval_microseconds (UpdateScanInterval (ranked_queue srt drv ?t))
     = scan_current_interval_microseconds (UpdateScanInterval s)"
    by (rule UpdateScanInterval_cong) (simp_all only: ranked_queue_fields t)
  from HandleScanResult_cases [OF h] show ?thesis
  proof (elim disjE)
    assume "s' = schedule_rescan ?t"
    then show ?thesis by (simp only: schedule_rescan_fields t u1 simp_thms)
  next
    assume "s' = schedule_rescan (ranked_queue srt drv ?t)"
    then show ?thesis by (simp only: schedule_rescan_fields ranked_queue_fields t u2 simp_thms)
  next
    assume "StartConnect drv (ranked_queue srt drv ?t) = Some s'"
    from StartConnect_intervals [OF this] show ?thesis
      by (simp only: ranked_queue_fields t simp_thms)
  qed
qed


lemma disconnected_intervals:
  assumes "WifiEventHandler srt drv WIFI_EVENT_STA_DISCONNECTED s = Some s'"
  shows "scan_min_interval_microseconds s' = scan_min_interval_microseconds s \<and>
         scan_max_interval_microseconds s' = scan_max_interval_microseconds s \<and>
         (scan_current_interval_microseconds s' = scan_current_interval_microseconds s \<or>
          scan_current_interval_microseconds s'
            = scan_current_interval_microseconds (UpdateScanInterval s))"
proof (cases "reconnect_count s < 5")
  case True
  have "s' = retried 1 s" using assms unfolding disconnect_retry [OF True] by simp
  then show ?thesis by (simp add: retried_def)
next
  case False
  define s3 where "s3 = s\<lparr>event_group := event_group s AND NOT WIFI_EVENT_CONNECTED,
                  was_connected := False,
                  trace := trace s
                    @ (if was_connected s \<and> on_disconnected s then [Call_on_disconnected] else [])\<rparr>"
  have t: "scan_min_interval_microseconds s3 = scan_min_interval_microseconds s"
    "scan_max_interval_microseconds s3 = scan_max_interval_microseconds s"
    "scan_current_interval_microseconds s3 = scan_current_interval_microseconds s"
    by (simp_all add: s3_def)
  have u: "scan_current_interval_microseconds (UpdateScanInterval s3)
     = scan_current_interval_microseconds (UpdateScanInterval s)"
    by (rule UpdateScanInterval_cong [OF t(2) t(3)])
  have h: "(if connect_queue s \<noteq> [] then StartConnect drv s3 else Some (schedule_rescan s3))
      = Some s'"
    using assms unfolding disconnect_exhausted [OF False] Let_def s3_def .
  show ?thesis
  proof (cases "connect_queue s \<noteq> []")
    case True
    then have "StartConnect drv s3 = Some s'" using h by simp
    from StartConnect_intervals [OF this] show ?thesis by (simp only: t simp_thms)
  next
    case False
    then have "s' = schedule_rescan s3" using h by simp
    then show ?thesis by (simp only: schedule_rescan_fields t u simp_thms)
  qed
qed

lemma step_intervals:
  assumes "step srt s e = Some s'"
  shows "scan_min_interval_microseconds s' = scan_min_interval_microseconds s \<and>
         scan_max_interval_microseconds s' = scan_max_interval_microseconds s \<and>
         (scan_current_interval_microseconds s' = scan_current_interval_microseconds s \<or>
          scan_current_interval_microseconds s'
            = scan_current_interval_microseconds (UpdateScanInterval s) \<or>
          (\<exists>ip. e = Ip_event_sta_got_ip ip) \<and>
            scan_current_interval_microseconds s' = scan_min_interval_microseconds s)"
proof (cases e)
  case (Wifi_event event_id drv)
  then have h: "WifiEventHandler srt drv event_id s = Some s'" using assms by simp
  show ?thesis
  proof (cases event_id)
    case WIFI_EVENT_STA_START
    then show ?thesis using sta_start_intervals [of srt drv s s'] h by simp
  next
    case WIFI_EVENT_SCAN_DONE
    then show ?thesis using scan_done_intervals [of srt drv s s'] h by blast
  next
    case WIFI_EVENT_STA_DISCONNECTED
    then show ?thesis using disconnected_intervals [of srt drv s s'] h by blast
  next
    case (WIFI_EVENT_OTHER n)
    then show ?thesis using h by (simp add: WifiEventHandler_def)
  qed
next
  case (Ip_event_sta_got_ip ip)
  then have "s' = IpEventHandler ip s" using assms by simp
  then have "scan_min_interval_microseconds s' = scan_min_interval_microseconds s"
    "scan_max_interval_microseconds s' = scan_max_interval_microseconds s"
    "scan_current_interval_microseconds s' = scan_min_interval_microseconds s"
    by (simp_all add: IpEventHandler_def Let_def emit_def xEventGroupSetBits_def)
  then show ?thesis using Ip_event_sta_got_ip by blast
next
  case Scan_timer_expired
  then have "s' = scan_timer_callback s" using assms by simp
  then show ?thesis by (simp add: scan_timer_callback_def emit_def)
qed

lemma step_inv:
  assumes "interval_inv s" and "step srt s e = Some s'"
  shows "interval_inv s'"
proof -
  note si = step_intervals [OF assms(2)]
  have u: "scan_current_interval_microseconds (UpdateScanInterval s)
      = min (2 * scan_current_interval_microseconds s) (scan_max_interval_microseconds s)"
    by (rule UpdateScanInterval_doubles [OF assms(1)])
  show ?thesis using si assms(1) unfolding interval_inv_def u by auto
qed

lemma run_inv:
  "interval_inv s \<Longrightarrow> run srt s es = Some s' \<Longrightarrow>
   interval_inv s' \<and> scan_min_interval_microseconds s' = scan_min_interval_microseconds s \<and>
     scan_max_interval_microseconds s' = scan_max_interval_microseconds s"
proof (induction es arbitrary: s)
  case Nil
  then show ?case by simp
next
  case (Cons e es)
  then obtain s1 where s1: "step srt s e = Some s1" "run srt s1 es = Some s'"
    by (auto split: option.splits)
  have "interval_inv s1" by (rule step_inv [OF Cons.prems(1) s1(1)])
  from Cons.IH [OF this s1(2)] step_intervals [OF s1(1)] show ?case by simp
qed


lemma unproductive_scan:
  assumes "scan_ap_records drv = [] \<or> match_loop (ssid_list drv) (srt (scan_ap_records drv)) [] = []"
  shows "\<exists>s'. WifiEventHandler srt drv WIFI_EVENT_SCAN_DONE s = Some s' \<and>
     trace s' = trace s @ [Esp_timer_start_once (scan_current_interval_microseconds s)] \<and>
     scan_current_interval_microseconds s'
       = scan_current_interval_microseconds (UpdateScanInterval s)"
proof -
  let ?t = "xEventGroupSetBits WIFI_EVENT_SCAN_DONE_BIT s"
  have t: "scan_max_interval_microseconds ?t = scan_max_interval_microseconds s"
    "scan_current_interval_microseconds ?t = scan_current_interval_microseconds s"
    "trace ?t = trace s"
    by (simp_all add: xEventGroupSetBits_def)
  have u1: "scan_current_interval_microseconds (UpdateScanInterval ?t)
     = scan_current_interval_microseconds (UpdateScanInterval s)"
    by (rule UpdateScanInterval_cong [OF t(1) t(2)])
  have u2: "scan_current_interval_microseconds (UpdateScanInterval (ranked_queue srt drv ?t))
     = scan_current_interval_microseconds (UpdateScanInterval s)"
    by (rule UpdateScanInterval_cong) (simp_all only: ranked_queue_fields t)
  have tr: "trace (schedule_rescan x) = trace x @ [Esp_timer_start_once (scan_current_interval_microseconds x)]"
    for x by (simp add: schedule_rescan_def UpdateScanInterval_def Let_def emit_def)
  have rq: "trace (ranked_queue srt drv ?t) = trace s"
    "connect_queue (ranked_queue srt drv ?t) = match_loop (ssid_list drv) (srt (scan_ap_records drv)) []"
    by (simp_all add: ranked_queue_def Let_def xEventGroupSetBits_def)
  show ?thesis
  proof (cases "scan_ap_records drv = []")
    case True
    then have "WifiEventHandler srt drv WIFI_EVENT_SCAN_DONE s = Some (schedule_rescan ?t)"
      by (simp add: WifiEventHandler_def HandleScanResult_def)
    then show ?thesis by (simp add: tr t schedule_rescan_fields u1)
  next
    case False
    then have "match_loop (ssid_list drv) (srt (scan_ap_records drv)) [] = []" using assms by simp
    then have "WifiEventHandler srt drv WIFI_EVENT_SCAN_DONE s
        = Some (schedule_rescan (ranked_queue srt drv ?t))"
      using False by (simp add: WifiEventHandler_def HandleScanResult_def Let_def rq)
    then show ?thesis by (simp add: tr t rq schedule_rescan_fields ranked_queue_fields u2)
  qed
qed

text \<open>
  C3, as the code has it. Let the scan range satisfy \<open>0 \<le> min \<le> max \<le> 2^30\<close> microseconds
  and the current interval start between 0 and the maximum (\<open>interval_inv\<close>, which
  \<open>SetScanIntervalRange a b\<close> establishes for \<open>0 \<le> a \<le> b \<le> 1073\<close> seconds). Then in every
  state that a sequence of events reaches, the backoff interval is at most the configured
  maximum; no event decreases it, except the IP event, which resets it to the configured
  minimum; and a scan that found no access point, or none that is known, starts the rescan
  timer and doubles the interval, clamped to the maximum.
\<close>

theorem backoff_monotone:
  assumes "interval_inv s0" and "run srt s0 es = Some s"
  shows "scan_current_interval_microseconds s \<le> scan_max_interval_microseconds s \<and>
     scan_max_interval_microseconds s = scan_max_interval_microseconds s0 \<and>
     scan_min_interval_microseconds s = scan_min_interval_microseconds s0 \<and>
     (\<forall>e s'. step srt s e = Some s' \<longrightarrow>
        scan_current_interval_microseconds s' \<le> scan_max_interval_microseconds s0 \<and>
        (scan_current_interval_microseconds s \<le> scan_current_interval_microseconds s' \<or>
         (\<exists>ip. e = Ip_event_sta_got_ip ip) \<and>
           scan_current_interval_microseconds s' = scan_min_interval_microseconds s0)) \<and>
     (\<forall>drv. scan_ap_records drv = [] \<or>
            match_loop (ssid_list drv) (srt (scan_ap_records drv)) [] = [] \<longrightarrow>
        (\<exists>s'. step srt s (Wifi_event WIFI_EVENT_SCAN_DONE drv) = Some s' \<and>
           trace s' = trace s @ [Esp_timer_start_once (scan_current_interval_microseconds s)] \<and>
           scan_current_interval_microseconds s'
             = min (2 * scan_current_interval_microseconds s) (scan_max_interval_microseconds s0)))"
proof -
  have inv: "interval_inv s"
    and mn: "scan_min_interval_microseconds s = scan_min_interval_microseconds s0"
    and mx: "scan_max_interval_microseconds s = scan_max_interval_microseconds s0"
    using run_inv [OF assms] by simp_all
  have u: "scan_current_interval_microseconds (UpdateScanInterval s)
      = min (2 * scan_current_interval_microseconds s) (scan_max_interval_microseconds s0)"
    using UpdateScanInterval_doubles [OF inv] mx by simp
  have bound: "scan_current_interval_microseconds s \<le> scan_max_interval_microseconds s"
    and nonneg: "0 \<le> scan_current_interval_microseconds s"
    using inv by (simp_all add: interval_inv_def)
  have steps: "scan_current_interval_microseconds s' \<le> scan_max_interval_microseconds s0 \<and>
        (scan_current_interval_microseconds s \<le> scan_current_interval_microseconds s' \<or>
         (\<exists>ip. e = Ip_event_sta_got_ip ip) \<and>
           scan_current_interval_microseconds s' = scan_min_interval_microseconds s0)"
    if st: "step srt s e = Some s'" for e s'
  proof -
    have "interval_inv s'" by (rule step_inv [OF inv st])
    then have le: "scan_current_interval_microseconds s' \<le> scan_max_interval_microseconds s0"
      using step_intervals [OF st] mx by (simp add: interval_inv_def)
    from step_intervals [OF st]
    have "scan_current_interval_microseconds s' = scan_current_interval_microseconds s \<or>
          scan_current_interval_microseconds s'
            = min (2 * scan_current_interval_microseconds s) (scan_max_interval_microseconds s0) \<or>
          (\<exists>ip. e = Ip_event_sta_got_ip ip) \<and>
            scan_current_interval_microseconds s' = scan_min_interval_microseconds s0"
      unfolding u mn by blast
    then have "scan_current_interval_microseconds s \<le> scan_current_interval_microseconds s' \<or>
         (\<exists>ip. e = Ip_event_sta_got_ip ip) \<and>
           scan_current_interval_microseconds s' = scan_min_interval_microseconds s0"
      using bound nonneg mx by auto
    with le show ?thesis by blast
  qed
  have unprod: "\<exists>s'. step srt s (Wifi_event WIFI_EVENT_SCAN_DONE drv) = Some s' \<and>
           trace s' = trace s @ [Esp_timer_start_once (scan_current_interval_microseconds s)] \<and>
           scan_current_interval_microseconds s'
             = min (2 * scan_current_interval_microseconds s) (scan_max_interval_microseconds s0)"
    if "scan_ap_records drv = [] \<or> match_loop (ssid_list drv) (srt (scan_ap_records drv)) [] = []"
    for drv
    using unproductive_scan [of drv srt s] that unfolding u by simp
  show ?thesis using bound mx mn steps unprod by blast
qed

theorem backoff_monotone_witness:
  "interval_inv example_station \<and>
   run stable_sort_rssi example_station
     [Wifi_event WIFI_EVENT_STA_START empty_scan, Wifi_event WIFI_EVENT_SCAN_DONE empty_scan]
     = Some (example_station\<lparr>event_group := 4, scan_current_interval_microseconds := 20000000,
               trace := [Esp_wifi_scan_start, Call_on_scan_begin, Esp_timer_start_once 10000000]\<rparr>) \<and>
   (\<exists>s'. step stable_sort_rssi
            (example_station\<lparr>event_group := 4, scan_current_interval_microseconds := 20000000,
               trace := [Esp_wifi_scan_start, Call_on_scan_begin, Esp_timer_start_once 10000000]\<rparr>)
            (Wifi_event WIFI_EVENT_SCAN_DONE empty_scan) = Some s' \<and>
          scan_current_interval_microseconds s' = 40000000)"
proof -
  have i: "interval_inv example_station"
    by (simp add: interval_inv_def example_station_def)
  have r: "run stable_sort_rssi example_station
     [Wifi_event WIFI_EVENT_STA_START empty_scan, Wifi_event WIFI_EVENT_SCAN_DONE empty_scan]
     = Some (example_station\<lparr>event_group := 4, scan_current_interval_microseconds := 20000000,
               trace := [Esp_wifi_scan_start, Call_on_scan_begin, Esp_timer_start_once 10000000]\<rparr>)"
    by (simp add: WifiEventHandler_def HandleScanResult_def schedule_rescan_def
        UpdateScanInterval_def Let_def emit_def xEventGroupSetBits_def example_station_def
        empty_scan_def WIFI_EVENT_SCAN_DONE_BIT_def int32_wrap_def)
  have e: "scan_ap_records empty_scan = [] \<or>
      match_loop (ssid_list empty_scan) (stable_sort_rssi (scan_ap_records empty_scan)) [] = []"
    by (simp add: empty_scan_def)
  from backoff_monotone [OF i r, THEN conjunct2, THEN conjunct2, THEN conjunct2, THEN conjunct2,
      THEN spec, of empty_scan] e
  have "\<exists>s'. step stable_sort_rssi
            (example_station\<lparr>event_group := 4, scan_current_interval_microseconds := 20000000,
               trace := [Esp_wifi_scan_start, Call_on_scan_begin, Esp_timer_start_once 10000000]\<rparr>)
            (Wifi_event WIFI_EVENT_SCAN_DONE empty_scan) = Some s' \<and>
          scan_current_interval_microseconds s' = 40000000"
    by (auto simp add: example_station_def)
  with i r show ?thesis by blast
qed


lemma SetScanIntervalRange_inv:
  assumes "0 \<le> a" and "a \<le> b" and "b \<le> 1073"
  shows "interval_inv (SetScanIntervalRange a b s)"
proof -
  have a: "int32_wrap (int32_wrap (a * 1000) * 1000) = a * 1000000"
  proof -
    have "int32_wrap (a * 1000) = a * 1000" using assms by (intro int32_wrap_id) simp_all
    moreover have "int32_wrap (a * 1000 * 1000) = a * 1000 * 1000"
      using assms by (intro int32_wrap_id) simp_all
    ultimately show ?thesis by simp
  qed
  have b: "int32_wrap (int32_wrap (b * 1000) * 1000) = b * 1000000"
  proof -
    have "int32_wrap (b * 1000) = b * 1000" using assms by (intro int32_wrap_id) simp_all
    moreover have "int32_wrap (b * 1000 * 1000) = b * 1000 * 1000"
      using assms by (intro int32_wrap_id) simp_all
    ultimately show ?thesis by simp
  qed
  show ?thesis
    using assms by (simp add: SetScanIntervalRange_def Let_def a b interval_inv_def)
qed

text \<open>
  Without the condition on the range the claim fails. Configured with a minimum of 20 s and
  a maximum of 10 s, the current interval exceeds the maximum. Configured with 10 s and
  1500 s, seven scans without result raise the interval to 1280 s, and the eighth doubles
  it beyond the range of a 32-bit \<open>int\<close>: the interval left is negative.
\<close>

theorem backoff_monotone_counterexample:
  "scan_current_interval_microseconds (SetScanIntervalRange 20 10 example_station) = 20000000 \<and>
   scan_max_interval_microseconds (SetScanIntervalRange 20 10 example_station) = 10000000 \<and>
   scan_max_interval_microseconds (SetScanIntervalRange 10 1500 example_station) = 1500000000 \<and>
   map_option scan_current_interval_microseconds
     (run stable_sort_rssi (SetScanIntervalRange 10 1500 example_station)
        (replicate 7 (Wifi_event WIFI_EVENT_SCAN_DONE empty_scan))) = Some 1280000000 \<and>
   map_option scan_current_interval_microseconds
     (run stable_sort_rssi (SetScanIntervalRange 10 1500 example_station)
        (replicate 8 (Wifi_event WIFI_EVENT_SCAN_DONE empty_scan))) = Some (- 1734967296)"
  by (simp add: SetScanIntervalRange_def Let_def int32_wrap_def example_station_def
      WifiEventHandler_def HandleScanResult_def schedule_rescan_def UpdateScanInterval_def
      emit_def xEventGroupSetBits_def empty_scan_def eval_nat_numeral)

subsection \<open>The ranker\<close>

lemma candidate_of_known: "candidate_of sl ap \<noteq> None \<longleftrightarrow> known_ssid sl ap"
  by (auto simp add: candidate_of_def known_ssid_def find_None_iff)

lemma match_loop_acc:
  "map Some (match_loop sl aps q) = map Some q @ map (candidate_of sl) (filter (known_ssid sl) aps)"
proof (induction aps arbitrary: q)
  case Nil
  show ?case by simp
next
  case (Cons ap aps)
  show ?case
  proof (cases "find (ssid_matches ap) sl")
    case None
    then have "\<not> known_ssid sl ap" using candidate_of_known [of sl ap] by (simp add: candidate_of_def)
    then show ?thesis using None Cons.IH by simp
  next
    case (Some it)
    then have "known_ssid sl ap" using candidate_of_known [of sl ap] by (simp add: candidate_of_def)
    then show ?thesis using Some Cons.IH by (simp add: candidate_of_def)
  qed
qed

lemma sort_key_contract:
  "mset (sort_key (\<lambda>a. - sint (ap_rssi a)) xs) = mset xs"
  "sorted_wrt (\<lambda>a b. \<not> rssi_gt b a) (sort_key (\<lambda>a. - sint (ap_rssi a)) xs)"
proof -
  show "mset (sort_key (\<lambda>a. - sint (ap_rssi a)) xs) = mset xs" by simp
  have "sorted (map (\<lambda>a. - sint (ap_rssi a)) (sort_key (\<lambda>a. - sint (ap_rssi a)) xs))"
    by (rule sorted_sort_key)
  then show "sorted_wrt (\<lambda>a b. \<not> rssi_gt b a) (sort_key (\<lambda>a. - sint (ap_rssi a)) xs)"
    by (simp add: sorted_wrt_map rssi_gt_def not_less)
qed

lemma stable_sort_rssi_contract: "std_sort_contract stable_sort_rssi"
  by (simp add: std_sort_contract_def stable_sort_rssi_def sort_key_contract)

lemma reversing_sort_rssi_contract: "std_sort_contract reversing_sort_rssi"
  by (simp add: std_sort_contract_def reversing_sort_rssi_def sort_key_contract)

lemma c_str_nul_free: "nul_free s \<Longrightarrow> c_str s = s"
  by (auto simp add: c_str_def nul_free_def)


lemma ssid_matches_exact:
  "nul_free (ap_ssid ap) \<Longrightarrow> nul_free (item_ssid it) \<Longrightarrow>
   ssid_matches ap it \<longleftrightarrow> ap_ssid ap = item_ssid it"
  by (simp add: ssid_matches_def strcmp_eq_def c_str_nul_free)

lemma ranked_queue_queue:
  "map Some (connect_queue (ranked_queue srt drv s))
     = map (candidate_of (ssid_list drv)) (ranked_matches srt drv)"
  by (simp add: ranked_queue_def Let_def match_loop_acc ranked_matches_def)

text \<open>
  C1, as the code has it. Let \<open>std::sort\<close> do what the standard promises and let the scan
  have found at least one access point. Then the queue built on scan completion is, element
  by element, the candidates of \<open>ranked_matches\<close>: the list of exactly those scan results
  whose ssid matches a known network entry (as a multiset, the matching part of the scan
  results), in descending order of signal strength. The order among results of equal signal
  strength is the one \<open>std::sort\<close> left. The queue does not depend on the station's
  previous queue, so the same scan results and known networks give the same queue; and
  \<open>HandleScanResult\<close> schedules a rescan when this queue is empty and otherwise connects to
  its head. On ssids without NUL the match is equality.
\<close>

theorem ranker_queue:
  assumes "std_sort_contract srt" and "scan_ap_records drv \<noteq> []"
  shows "map Some (connect_queue (ranked_queue srt drv s))
           = map (candidate_of (ssid_list drv)) (ranked_matches srt drv) \<and>
         mset (ranked_matches srt drv)
           = filter_mset (known_ssid (ssid_list drv)) (mset (scan_ap_records drv)) \<and>
         sorted_wrt (\<lambda>a b. sint (ap_rssi b) \<le> sint (ap_rssi a)) (ranked_matches srt drv) \<and>
         connect_queue (ranked_queue srt drv s) = connect_queue (ranked_queue srt drv s') \<and>
         HandleScanResult srt drv s
           = (if connect_queue (ranked_queue srt drv s) = []
              then Some (schedule_rescan (ranked_queue srt drv s))
              else StartConnect drv (ranked_queue srt drv s)) \<and>
         (\<forall>ap it. nul_free (ap_ssid ap) \<and> nul_free (item_ssid it) \<longrightarrow>
            (ssid_matches ap it \<longleftrightarrow> ap_ssid ap = item_ssid it))"
proof -
  have perm: "mset (srt (scan_ap_records drv)) = mset (scan_ap_records drv)"
    and ord: "sorted_wrt (\<lambda>a b. \<not> rssi_gt b a) (srt (scan_ap_records drv))"
    using assms(1) by (simp_all add: std_sort_contract_def)
  have m: "mset (ranked_matches srt drv)
      = filter_mset (known_ssid (ssid_list drv)) (mset (scan_ap_records drv))"
    unfolding ranked_matches_def mset_filter perm ..
  have "sorted_wrt (\<lambda>a b. sint (ap_rssi b) \<le> sint (ap_rssi a)) (srt (scan_ap_records drv))"
    using ord by (simp add: rssi_gt_def not_less)
  then have o: "sorted_wrt (\<lambda>a b. sint (ap_rssi b) \<le> sint (ap_rssi a)) (ranked_matches srt drv)"
    unfolding ranked_matches_def by (rule sorted_wrt_filter)
  have q: "connect_queue (ranked_queue srt drv s) = connect_queue (ranked_queue srt drv s')"
    by (simp add: ranked_queue_def Let_def)
  have h: "HandleScanResult srt drv s
           = (if connect_queue (ranked_queue srt drv s) = []
              then Some (schedule_rescan (ranked_queue srt drv s))
              else StartConnect drv (ranked_queue srt drv s))"
    using assms(2) by (simp add: HandleScanResult_def Let_def)
  show ?thesis using ranked_queue_queue m o q h ssid_matches_exact by blast
qed

theorem ranker_queue_witness:
  "std_sort_contract stable_sort_rssi \<and> scan_ap_records cafe_scan \<noteq> [] \<and>
   ranked_matches stable_sort_rssi cafe_scan = [cafe_ap] \<and>
   connect_queue (ranked_queue stable_sort_rssi cafe_scan example_station) = [cafe_candidate] \<and>
   needs_portal_of cafe_candidate"
proof -
  have ne: "scan_ap_records cafe_scan \<noteq> []" by (simp add: cafe_scan_def)
  have rm: "ranked_matches stable_sort_rssi cafe_scan = [cafe_ap]"
    by (simp add: ranked_matches_def stable_sort_rssi_def cafe_scan_def cafe_ap_def other_ap_def
        known_ssid_def ssid_matches_def strcmp_eq_def c_str_def NUL_def cafe_item_def)
  have c: "candidate_of [cafe_item] cafe_ap = Some cafe_candidate"
    by (simp add: candidate_of_def cafe_candidate_def ssid_matches_def strcmp_eq_def c_str_def
        NUL_def cafe_item_def cafe_ap_def)
  from ranker_queue [OF stable_sort_rssi_contract ne, of example_station example_station,
      THEN conjunct1]
  have "map Some (connect_queue (ranked_queue stable_sort_rssi cafe_scan example_station))
      = [Some cafe_candidate]"
    unfolding rm using c by (simp add: cafe_scan_def)
  then have "connect_queue (ranked_queue stable_sort_rssi cafe_scan example_station) = [cafe_candidate]"
    by (simp add: map_eq_Cons_conv)
  moreover have "needs_portal_of cafe_candidate"
    by (simp add: needs_portal_of_def is_enterprise_of_def cafe_candidate_def make_record_def
        cafe_item_def cafe_ap_def)
  ultimately show ?thesis using stable_sort_rssi_contract ne rm by blast
qed

text \<open>
  The claim as written fails in two ways. A scan that found no access point returns before
  the queue is cleared: after a scan that queued \<open>HomeWifi\<close> behind \<open>CafeWifi\<close>, an empty
  scan leaves \<open>HomeWifi\<close> in the queue. And \<open>reversing_sort_rssi\<close>, which meets the
  contract of \<open>std::sort\<close>, queues two results of equal signal strength against their scan
  order.
\<close>

theorem ranker_queue_counterexample:
  "map_option (map rec_ssid \<circ> connect_queue)
     (run stable_sort_rssi example_station
        [Wifi_event WIFI_EVENT_SCAN_DONE tie_scan, Wifi_event WIFI_EVENT_SCAN_DONE empty_scan])
     = Some [''HomeWifi''] \<and>
   map ap_ssid (scan_ap_records tie_scan) = [''CafeWifi'', ''HomeWifi''] \<and>
   ap_rssi cafe_ap = ap_rssi home_ap \<and>
   map rec_ssid (connect_queue (ranked_queue reversing_sort_rssi tie_scan example_station))
     = [''HomeWifi'', ''CafeWifi'']"
proof -
  have 1: "run stable_sort_rssi example_station
        [Wifi_event WIFI_EVENT_SCAN_DONE tie_scan, Wifi_event WIFI_EVENT_SCAN_DONE empty_scan]
      \<noteq> None \<and> map_option (map rec_ssid \<circ> connect_queue) (run stable_sort_rssi example_station
        [Wifi_event WIFI_EVENT_SCAN_DONE tie_scan, Wifi_event WIFI_EVENT_SCAN_DONE empty_scan])
     = Some [''HomeWifi'']"
    by (simp add: WifiEventHandler_def HandleScanResult_def ranked_queue_def Let_def
        stable_sort_rssi_def tie_scan_def empty_scan_def cafe_ap_def home_ap_def cafe_item_def
        home_item_def ssid_matches_def strcmp_eq_def c_str_def NUL_def make_record_def
        StartConnect_def emit_def xEventGroupSetBits_def example_station_def
        schedule_rescan_def UpdateScanInterval_def)
  have 2: "map rec_ssid (connect_queue (ranked_queue reversing_sort_rssi tie_scan example_station))
     = [''HomeWifi'', ''CafeWifi'']"
    by (simp add: ranked_queue_def Let_def reversing_sort_rssi_def tie_scan_def cafe_ap_def
        home_ap_def cafe_item_def home_item_def ssid_matches_def strcmp_eq_def c_str_def NUL_def
        make_record_def)
  show ?thesis using 1 2 by (simp add: tie_scan_def cafe_ap_def home_ap_def)
qed

subsection \<open>Launching the portal login\<close>

lemma IpEventHandler_trace:
  "trace (IpEventHandler ip s) = trace s
     @ (if on_connected s then [Call_on_connected (ssid s)] else [])
     @ (if needs_portal_login s
        then [StartPortalLogin (pending_portal_username s) (pending_portal_password s) (ssid s)]
        else [])"
  by (simp add: IpEventHandler_def Let_def emit_def xEventGroupSetBits_def)

lemma StartConnect_Some_ok:
  assumes "connect_queue s = c # q" and "StartConnect drv s = Some s1"
  shows "set_config_ok drv \<and> connect_ok drv"
  using assms by (auto simp: StartConnect_def Let_def split: if_splits)

lemma retried_portal_fields:
  "needs_portal_login (retried k s) = needs_portal_login s"
  "pending_portal_username (retried k s) = pending_portal_username s"
  "pending_portal_password (retried k s) = pending_portal_password s"
  "ssid (retried k s) = ssid s"
  "on_connected (retried k s) = on_connected s"
  by (simp_all add: retried_def)

lemma queue_elements:
  assumes "c \<in> set (connect_queue (ranked_queue srt drv s))"
  shows "\<exists>ap it. ap \<in> set (srt (scan_ap_records drv)) \<and>
     find (ssid_matches ap) (ssid_list drv) = Some it \<and> c = make_record it ap"
proof -
  have "Some c \<in> set (map Some (connect_queue (ranked_queue srt drv s)))"
    using assms by simp
  then have "Some c \<in> set (map (candidate_of (ssid_list drv)) (ranked_matches srt drv))"
    by (simp only: ranked_queue_queue)
  then obtain ap where "ap \<in> set (ranked_matches srt drv)"
    and "candidate_of (ssid_list drv) ap = Some c" by auto
  then show ?thesis by (auto simp: ranked_matches_def candidate_of_def)
qed

text \<open>
  C5. Let \<open>StartConnect\<close> pop the candidate \<open>c\<close> and let the join succeed after at most
  five disconnect events. The IP event then launches the portal login task if and only if
  \<open>c\<close> has a non-empty username and an auth mode that is neither WPA2-enterprise nor
  WPA2/WPA3-enterprise, and it launches it with the username, password and ssid of \<open>c\<close>.
  Every candidate of a ranked queue carries the ssid, username and password of the first
  known network entry that matches its scan result, and that scan result's auth mode.
\<close>

theorem portal_gating:
  assumes "connect_queue s = c # q" and "StartConnect drv s = Some s1" and "k \<le> 5"
  shows "(\<exists>s2. run srt s1 (disconnects k drv') = Some s2 \<and> ssid s2 = rec_ssid c \<and>
            trace (IpEventHandler ip s2) = trace s2
              @ (if on_connected s then [Call_on_connected (rec_ssid c)] else [])
              @ (if rec_username c \<noteq> [] \<and> \<not> enterprise_mode (rec_authmode c)
                 then [StartPortalLogin (rec_username c) (rec_password c) (rec_ssid c)]
                 else [])) \<and>
         (\<forall>srt0 drv0 s0. c \<in> set (connect_queue (ranked_queue srt0 drv0 s0)) \<longrightarrow>
            (\<exists>ap it. ap \<in> set (srt0 (scan_ap_records drv0)) \<and>
               find (ssid_matches ap) (ssid_list drv0) = Some it \<and>
               rec_ssid c = item_ssid it \<and> rec_username c = item_username it \<and>
               rec_password c = item_password it \<and> rec_authmode c = ap_authmode ap))"
proof
  have ok: "set_config_ok drv" "connect_ok drv"
    using StartConnect_Some_ok [OF assms(1,2)] by simp_all
  have s1: "s1 = s\<lparr>connect_queue := q, ssid := rec_ssid c, password := rec_password c,
              needs_portal_login := needs_portal_of c,
              pending_portal_username := (if needs_portal_of c then rec_username c else []),
              pending_portal_password := (if needs_portal_of c then rec_password c else []),
              reconnect_count := 0,
              trace := trace s @ (if on_connect s then [Call_on_connect (rec_ssid c)] else [])
                 @ [Esp_wifi_disconnect] @ enterprise_setup c
                 @ [Esp_wifi_set_config (make_wifi_config (remember_bssid s) c), Esp_wifi_connect]\<rparr>"
    using assms(2) unfolding StartConnect_pop [OF assms(1) ok] by simp
  have f: "needs_portal_login s1 = needs_portal_of c" "ssid s1 = rec_ssid c"
    "on_connected s1 = on_connected s" "reconnect_count s1 = 0"
    "needs_portal_login s1 \<Longrightarrow> pending_portal_username s1 = rec_username c"
    "needs_portal_login s1 \<Longrightarrow> pending_portal_password s1 = rec_password c"
    unfolding s1 by simp_all
  have np: "needs_portal_of c = (rec_username c \<noteq> [] \<and> \<not> enterprise_mode (rec_authmode c))"
    by (auto simp: needs_portal_of_def is_enterprise_of_def enterprise_mode_def)
  have r: "run srt s1 (disconnects k drv') = Some (retried k s1)"
    using assms(3) f(4) by (intro run_retries) simp
  have "trace (IpEventHandler ip (retried k s1)) = trace (retried k s1)
              @ (if on_connected s then [Call_on_connected (rec_ssid c)] else [])
              @ (if rec_username c \<noteq> [] \<and> \<not> enterprise_mode (rec_authmode c)
                 then [StartPortalLogin (rec_username c) (rec_password c) (rec_ssid c)]
                 else [])"
    unfolding IpEventHandler_trace retried_portal_fields using f np by simp
  then show "\<exists>s2. run srt s1 (disconnects k drv') = Some s2 \<and> ssid s2 = rec_ssid c \<and>
            trace (IpEventHandler ip s2) = trace s2
              @ (if on_connected s then [Call_on_connected (rec_ssid c)] else [])
              @ (if rec_username c \<noteq> [] \<and> \<not> enterprise_mode (rec_authmode c)
                 then [StartPortalLogin (rec_username c) (rec_password c) (rec_ssid c)]
                 else [])"
    using r f(2) by (simp add: retried_portal_fields)
next
  show "\<forall>srt0 drv0 s0. c \<in> set (connect_queue (ranked_queue srt0 drv0 s0)) \<longrightarrow>
            (\<exists>ap it. ap \<in> set (srt0 (scan_ap_records drv0)) \<and>
               find (ssid_matches ap) (ssid_list drv0) = Some it \<and>
               rec_ssid c = item_ssid it \<and> rec_username c = item_username it \<and>
               rec_password c = item_password it \<and> rec_authmode c = ap_authmode ap)"
  proof (intro allI impI)
    fix srt0 drv0 s0
    assume "c \<in> set (connect_queue (ranked_queue srt0 drv0 s0))"
    from queue_elements [OF this] obtain ap it where
      "ap \<in> set (srt0 (scan_ap_records drv0))"
      "find (ssid_matches ap) (ssid_list drv0) = Some it" "c = make_record it ap"
      by blast
    then show "\<exists>ap it. ap \<in> set (srt0 (scan_ap_records drv0)) \<and>
               find (ssid_matches ap) (ssid_list drv0) = Some it \<and>
               rec_ssid c = item_ssid it \<and> rec_username c = item_username it \<and>
               rec_password c = item_password it \<and> rec_authmode c = ap_authmode ap"
      by (auto simp: make_record_def)
  qed
qed

theorem portal_gating_witness:
  "connect_queue (example_station\<lparr>connect_queue := [cafe_candidate]\<rparr>) = [cafe_candidate] \<and>
   (\<exists>s1 s2. StartConnect cafe_scan (example_station\<lparr>connect_queue := [cafe_candidate]\<rparr>) = Some s1 \<and>
      run stable_sort_rssi s1 (disconnects 2 cafe_scan) = Some s2 \<and>
      trace (IpEventHandler (192, 168, 1, 7) s2) = trace s2
        @ [Call_on_connected ''CafeWifi'', StartPortalLogin ''guest'' ''secret'' ''CafeWifi''])"
proof -
  let ?s = "example_station\<lparr>connect_queue := [cafe_candidate]\<rparr>"
  have q: "connect_queue ?s = cafe_candidate # []" by simp
  have ok: "set_config_ok cafe_scan" "connect_ok cafe_scan" by (simp_all add: cafe_scan_def)
  obtain s1 where s1: "StartConnect cafe_scan ?s = Some s1"
    using StartConnect_pop [OF q ok] by blast
  have k: "(2::nat) \<le> 5" by simp
  from portal_gating [OF q s1 k, of stable_sort_rssi cafe_scan "(192, 168, 1, 7)", THEN conjunct1]
  obtain s2 where "run stable_sort_rssi s1 (disconnects 2 cafe_scan) = Some s2"
    and "trace (IpEventHandler (192, 168, 1, 7) s2) = trace s2
        @ [Call_on_connected ''CafeWifi'', StartPortalLogin ''guest'' ''secret'' ''CafeWifi'']"
    by (auto simp: example_station_def cafe_candidate_def make_record_def cafe_item_def
        cafe_ap_def enterprise_mode_def)
  with s1 q show ?thesis by blast
qed

subsection \<open>Printed addresses\<close>

lemma digit_char_inj:
  "d < 10 \<Longrightarrow> e < 10 \<Longrightarrow> (digit_char d = digit_char e) = (d = e)"
  by (simp add: digit_char_def nth_eq_iff_index_eq)

lemma digit_char_values:
  "CHR ''0'' = digit_char 0" "CHR ''1'' = digit_char 1" "CHR ''2'' = digit_char 2"
  "CHR ''6'' = digit_char 6" "CHR ''7'' = digit_char 7" "CHR ''8'' = digit_char 8"
  "CHR ''9'' = digit_char 9"
  by (simp_all add: digit_char_def)

lemma digit_char_in: "d < 10 \<Longrightarrow> digit_char d \<in> set ''0123456789''"
  unfolding digit_char_def by (rule nth_mem) simp

lemma digit_char_not_dot: "d < 10 \<Longrightarrow> digit_char d \<noteq> CHR ''.''"
  using digit_char_in [of d] by auto

lemma dec_digits: "set (dec n) \<subseteq> set ''0123456789''"
proof (induction n rule: dec.induct)
  case (1 n)
  show ?case
  proof (cases "n < 10")
    case True
    then show ?thesis using digit_char_in [of n] by (subst dec.simps) simp
  next
    case False
    have "n mod 10 < 10" by simp
    then have "digit_char (n mod 10) \<in> set ''0123456789''" by (rule digit_char_in)
    then show ?thesis using False "1.IH" by (subst dec.simps) simp
  qed
qed

lemma dec_shape:
  "n < 10 \<Longrightarrow> dec n = [digit_char n]"
  "10 \<le> n \<Longrightarrow> n < 100 \<Longrightarrow> dec n = [digit_char (n div 10), digit_char (n mod 10)]"
  "100 \<le> n \<Longrightarrow> n < 1000 \<Longrightarrow>
     dec n = [digit_char (n div 100), digit_char (n div 10 mod 10), digit_char (n mod 10)]"
proof -
  show 1: "dec n = [digit_char n]" if "n < 10" for n using that by (subst dec.simps) simp
  show 2: "dec n = [digit_char (n div 10), digit_char (n mod 10)]" if "10 \<le> n" "n < 100" for n
  proof -
    have "n div 10 < 10" using that by simp
    then show ?thesis using that 1 [of "n div 10"] by (subst dec.simps) simp
  qed
  show "dec n = [digit_char (n div 100), digit_char (n div 10 mod 10), digit_char (n mod 10)]"
    if "100 \<le> n" "n < 1000"
  proof -
    have "10 \<le> n div 10" "n div 10 < 100" using that by simp_all
    then have "dec (n div 10) = [digit_char (n div 10 div 10), digit_char (n div 10 mod 10)]"
      by (rule 2)
    moreover have "n div 10 div 10 = n div 100" by (simp add: div_mult2_eq)
    ultimately show ?thesis using that by (subst dec.simps) simp
  qed
qed


lemma two_digits:
  fixes n a b :: nat
  shows "(n div 10 = a \<and> n mod 10 = b) = (n = 10 * a + b \<and> b < 10)"
  by auto

lemma three_digits:
  fixes n a b c :: nat
  shows "(n div 100 = a \<and> n div 10 mod 10 = b \<and> n mod 10 = c)
     = (n = 100 * a + 10 * b + c \<and> b < 10 \<and> c < 10)"
proof -
  have h: "n div 100 = n div 10 div 10" by (simp add: div_mult2_eq)
  have "(n div 10 div 10 = a \<and> n div 10 mod 10 = b) = (n div 10 = 10 * a + b \<and> b < 10)"
    by (rule two_digits)
  moreover have "(n div 10 = 10 * a + b \<and> n mod 10 = c) = (n = 10 * (10 * a + b) + c \<and> c < 10)"
    by (rule two_digits)
  ultimately show ?thesis unfolding h by auto
qed

lemma prefix_10:
  assumes "n < 256"
  shows "(take 3 (dec n @ CHR ''.'' # r) = ''10.'') = (n = 10)"
proof -
  consider "n < 10" | "10 \<le> n" "n < 100" | "100 \<le> n" "n < 1000" using assms by linarith
  then show ?thesis
  proof cases
    case 1
    then show ?thesis by (simp add: dec_shape)
  next
    case 2
    then have "n div 10 < 10" "n mod 10 < 10" by simp_all
    then show ?thesis
      using 2 two_digits [of n 1 0]
      by (simp add: dec_shape digit_char_values digit_char_inj)
  next
    case 3
    then have "n mod 10 < 10" by simp
    then show ?thesis using 3 by (simp add: dec_shape digit_char_not_dot)
  qed
qed

lemma prefix_3digits:
  assumes "n < 256" and "0 < a" and "a < 10" and "b < 10" and "c < 10"
  shows "(take 4 (dec n @ CHR ''.'' # r) = [digit_char a, digit_char b, digit_char c, CHR ''.''])
     = (n = 100 * a + 10 * b + c)"
    and "(take 3 (dec n @ CHR ''.'' # r) = [digit_char a, digit_char b, digit_char c])
     = (n = 100 * a + 10 * b + c)"
proof -
  have nb: "CHR ''.'' \<noteq> digit_char b" and nc: "CHR ''.'' \<noteq> digit_char c"
    using assms digit_char_not_dot [of b] digit_char_not_dot [of c] by (simp_all add: not_sym)
  consider "n < 10" | "10 \<le> n" "n < 100" | "100 \<le> n" "n < 1000" using assms by linarith
  then have "((take 4 (dec n @ CHR ''.'' # r) = [digit_char a, digit_char b, digit_char c, CHR ''.''])
     = (n = 100 * a + 10 * b + c)) \<and>
     ((take 3 (dec n @ CHR ''.'' # r) = [digit_char a, digit_char b, digit_char c])
     = (n = 100 * a + 10 * b + c))"
  proof cases
    case 1
    have ne: "n \<noteq> 100 * a + 10 * b + c" using 1 assms(2) by linarith
    have "take 4 (dec n @ CHR ''.'' # r) \<noteq> [digit_char a, digit_char b, digit_char c, CHR ''.'']"
      and "take 3 (dec n @ CHR ''.'' # r) \<noteq> [digit_char a, digit_char b, digit_char c]"
      using nb by (simp_all add: dec_shape(1) [OF 1])
    then show ?thesis using ne by blast
  next
    case 2
    have ne: "n \<noteq> 100 * a + 10 * b + c" using 2 assms(2) by linarith
    have "take 4 (dec n @ CHR ''.'' # r) \<noteq> [digit_char a, digit_char b, digit_char c, CHR ''.'']"
      and "take 3 (dec n @ CHR ''.'' # r) \<noteq> [digit_char a, digit_char b, digit_char c]"
      using nc by (simp_all add: dec_shape(2) [OF 2])
    then show ?thesis using ne by blast
  next
    case 3
    have d: "n div 100 < 10" "n div 10 mod 10 < 10" "n mod 10 < 10" using 3 by simp_all
    have "(digit_char (n div 100) = digit_char a \<and> digit_char (n div 10 mod 10) = digit_char b \<and>
        digit_char (n mod 10) = digit_char c) = (n = 100 * a + 10 * b + c)"
      using three_digits [of n a b c] assms d by (simp add: digit_char_inj)
    then show ?thesis by (simp add: dec_shape(3) [OF 3])
  qed
  then show "(take 4 (dec n @ CHR ''.'' # r) = [digit_char a, digit_char b, digit_char c, CHR ''.''])
     = (n = 100 * a + 10 * b + c)"
    and "(take 3 (dec n @ CHR ''.'' # r) = [digit_char a, digit_char b, digit_char c])
     = (n = 100 * a + 10 * b + c)" by blast+
qed

lemma prefix_172:
  assumes "n < 256"
  shows "(take 4 (dec n @ CHR ''.'' # r) = ''172.'') = (n = 172)"
  using prefix_3digits(1) [of n 1 7 2 r] assms by (simp add: digit_char_def)

lemma take_append_dot:
  assumes "100 \<le> n" and "n < 1000"
  shows "take 7 (dec n @ CHR ''.'' # t) = dec n @ CHR ''.'' # take 3 t"
  by (simp add: dec_shape(3) [OF assms])

lemma prefix_192_168:
  assumes "n < 256" and "m < 256"
  shows "(take 7 (dec n @ CHR ''.'' # dec m @ CHR ''.'' # r) = ''192.168'') = (n = 192 \<and> m = 168)"
proof (cases "take 4 (dec n @ CHR ''.'' # dec m @ CHR ''.'' # r) = ''192.''")
  case True
  then have n: "n = 192"
    using prefix_3digits(1) [of n 1 9 2 "dec m @ CHR ''.'' # r"] assms
    by (simp add: digit_char_def)
  have "take 7 (dec n @ CHR ''.'' # dec m @ CHR ''.'' # r)
      = dec n @ CHR ''.'' # take 3 (dec m @ CHR ''.'' # r)"
    using n by (intro take_append_dot) simp_all
  moreover have "dec n = ''192''" using n by (simp add: dec.simps digit_char_def)
  moreover have "(take 3 (dec m @ CHR ''.'' # r) = ''168'') = (m = 168)"
    using prefix_3digits(2) [of m 1 6 8 r] assms by (simp add: digit_char_def)
  ultimately show ?thesis using n by simp
next
  case False
  then have n: "n \<noteq> 192"
    using prefix_3digits(1) [of n 1 9 2 "dec m @ CHR ''.'' # r"] assms
    by (simp add: digit_char_def)
  have "take 7 (dec n @ CHR ''.'' # dec m @ CHR ''.'' # r) \<noteq> ''192.168''"
  proof
    assume e: "take 7 (dec n @ CHR ''.'' # dec m @ CHR ''.'' # r) = ''192.168''"
    have "take 4 (dec n @ CHR ''.'' # dec m @ CHR ''.'' # r)
        = take (min 4 7) (dec n @ CHR ''.'' # dec m @ CHR ''.'' # r)" by simp
    also have "\<dots> = take 4 (take 7 (dec n @ CHR ''.'' # dec m @ CHR ''.'' # r))"
      by (rule take_take [symmetric])
    also have "\<dots> = take 4 ''192.168''" by (simp only: e)
    also have "\<dots> = ''192.''" by simp
    finally have "take 4 (dec n @ CHR ''.'' # dec m @ CHR ''.'' # r) = ''192.''" .
    then show False using False by blast
  qed
  then show ?thesis using n by blast
qed


lemma ntoa_nul_free: "nul_free (ntoa ip)"
proof -
  have "NUL \<notin> set ''0123456789''" by (simp add: NUL_def)
  then have "NUL \<notin> set (dec n)" for n using dec_digits [of n] by blast
  then show ?thesis by (cases ip) (simp add: ntoa_def nul_free_def NUL_def)
qed

lemma c_str_ntoa: "c_str (ntoa ip) = ntoa ip"
  using ntoa_nul_free [of ip] by (auto simp add: c_str_def nul_free_def)

lemma unat_byte_eq: "(unat (w :: 8 word) = unat (v :: 8 word)) = (w = v)"
  by (simp add: word_unat_eq_iff)

lemma private_prefix_ntoa:
  "private_prefix (ntoa (a, b, c, d)) \<longleftrightarrow> a = 10 \<or> a = 172 \<or> (a = 192 \<and> b = 168)"
proof -
  have a: "unat a < 256" and b: "unat b < 256"
    using unsigned_less [of a, where ?'a = nat] unsigned_less [of b, where ?'a = nat] by simp_all
  let ?r = "dec (unat c) @ ''.'' @ dec (unat d)"
  have n: "ntoa (a, b, c, d) = dec (unat a) @ CHR ''.'' # dec (unat b) @ CHR ''.'' # ?r"
    by (simp add: ntoa_def)
  have lit: "c_str ''10.'' = ''10.''" "c_str ''172.'' = ''172.''" "c_str ''192.168'' = ''192.168''"
    by (simp_all add: c_str_def NUL_def)
  have 1: "strncmp_eq (ntoa (a, b, c, d)) ''10.'' 3 \<longleftrightarrow> a = 10"
  proof -
    have "strncmp_eq (ntoa (a, b, c, d)) ''10.'' 3 = (take 3 (ntoa (a, b, c, d)) = ''10.'')"
      by (simp add: strncmp_eq_def c_str_ntoa lit)
    also have "\<dots> = (unat a = 10)" unfolding n by (rule prefix_10 [OF a])
    also have "\<dots> = (a = 10)" using unat_byte_eq [of a 10] by simp
    finally show ?thesis .
  qed
  have 2: "strncmp_eq (ntoa (a, b, c, d)) ''172.'' 4 \<longleftrightarrow> a = 172"
  proof -
    have "strncmp_eq (ntoa (a, b, c, d)) ''172.'' 4 = (take 4 (ntoa (a, b, c, d)) = ''172.'')"
      by (simp add: strncmp_eq_def c_str_ntoa lit)
    also have "\<dots> = (unat a = 172)" unfolding n by (rule prefix_172 [OF a])
    also have "\<dots> = (a = 172)" using unat_byte_eq [of a 172] by simp
    finally show ?thesis .
  qed
  have 3: "strncmp_eq (ntoa (a, b, c, d)) ''192.168'' 7 \<longleftrightarrow> a = 192 \<and> b = 168"
  proof -
    have "strncmp_eq (ntoa (a, b, c, d)) ''192.168'' 7
        = (take 7 (ntoa (a, b, c, d)) = ''192.168'')"
      by (simp add: strncmp_eq_def c_str_ntoa lit)
    also have "\<dots> = (unat a = 192 \<and> unat b = 168)" unfolding n by (rule prefix_192_168 [OF a b])
    also have "\<dots> = (a = 192 \<and> b = 168)"
      using unat_byte_eq [of a 192] unat_byte_eq [of b 168] by simp
    finally show ?thesis .
  qed
  show ?thesis unfolding private_prefix_def 1 2 3 by blast
qed

lemma spec_private_range_accepted:
  "spec_private_range ip \<Longrightarrow> private_prefix (ntoa ip)"
  by (cases ip) (auto simp: private_prefix_ntoa spec_private_range_def)

subsection \<open>The login request\<close>

































lemma resolve_login_flag:
  "is_hijacked_200 (snd (resolve_login env host st)) = is_hijacked_200 st"
  by (simp add: resolve_login_def Let_def split: option.splits)
















subsection \<open>The hijack signal\<close>

text \<open>The scenario of the specification: the probe host resolves to 192.168.1.1.\<close>

lemma hijack_scenario:
  "login_url (detect_login_url (hijack_env (192, 168, 1, 1)) ''CampusNet'')
     = ''http://192.168.1.1/login'' \<and>
   map_option req_url (PortalLoginTask (hijack_env (192, 168, 1, 1)) ''alice'' ''pw'' ''CampusNet'')
     = Some ''http://192.168.1.1/login''"
  by (simp add: PortalLoginTask_def login_post_def post_url_of_def detect_login_url_def
      check_redirect_def resolve_login_def hijack_env_def Let_def c_str_def NUL_def
      strstr_found_def private_prefix_def strncmp_eq_def ntoa_def dec.simps digit_char_def)

text \<open>
  C6. The claim asks for a login URL exactly when the resolved address is in 10.0.0.0/8,
  172.16.0.0/12 or 192.168.0.0/16. The code tests the printed address for the prefix
  \<open>172.\<close>: for 172.217.0.1, which is outside the private ranges, the probe reports a login
  URL and the task POSTs to it.
\<close>

theorem private_range_divergence:
  "\<not> spec_private_range (172, 217, 0, 1) \<and>
   check_redirect (hijack_env (172, 217, 0, 1)) ''http://connect.rom.miui.com/generate_204''
     \<lparr>login_url = [], is_hijacked_200 = False\<rparr>
     = (True, \<lparr>login_url = ''http://172.217.0.1/login'', is_hijacked_200 = True\<rparr>) \<and>
   map_option req_url (PortalLoginTask (hijack_env (172, 217, 0, 1)) ''alice'' ''pw'' ''CampusNet'')
     = Some ''http://172.217.0.1/login''"
  by (simp add: PortalLoginTask_def login_post_def post_url_of_def detect_login_url_def
      check_redirect_def resolve_login_def hijack_env_def Let_def c_str_def NUL_def
      strstr_found_def private_prefix_def strncmp_eq_def ntoa_def dec.simps digit_char_def
      spec_private_range_def)

text \<open>
  What the probe of the 204 endpoint does on HTTP 200 once the probe host resolves: the
  login URL is synthesized exactly for the addresses 10.x.x.x, 172.x.x.x and 192.168.x.x.
\<close>

lemma hijack_login_url:
  assumes "perform_ok (http_get env ''http://connect.rom.miui.com/generate_204'')"
    and "status_code (http_get env ''http://connect.rom.miui.com/generate_204'') = 200"
    and "gethostbyname env ''connect.rom.miui.com'' = Some (a, b, c, d)"
  shows "check_redirect env ''http://connect.rom.miui.com/generate_204'' st =
     (if a = 10 \<or> a = 172 \<or> (a = 192 \<and> b = 168)
      then (True, st\<lparr>is_hijacked_200 := True,
                       login_url := ''http://'' @ ntoa (a, b, c, d) @ ''/login''\<rparr>)
      else (False, st\<lparr>is_hijacked_200 := True\<rparr>))"
proof -
  have g: "strstr_found ''http://connect.rom.miui.com/generate_204'' ''generate_204''"
    by (simp add: strstr_found_def c_str_def NUL_def)
  show ?thesis
    using assms g
    by (simp add: check_redirect_def Let_def resolve_login_def private_prefix_ntoa)
qed

subsection \<open>Waiting for the connection, and \<open>Stop\<close>\<close>

lemma wait_Suc:
  "xEventGroupWaitBits g bits (Suc n) =
     (if g 0 AND bits \<noteq> 0 then (0, g 0)
      else (Suc (fst (xEventGroupWaitBits (\<lambda>t. g (Suc t)) bits n)),
            snd (xEventGroupWaitBits (\<lambda>t. g (Suc t)) bits n)))"
  by (simp add: case_prod_beta)

lemma wait_bounded: "fst (xEventGroupWaitBits g bits n) \<le> n"
  by (induction n arbitrary: g) (simp_all add: wait_Suc del: xEventGroupWaitBits.simps(2))

lemma wait_value: "snd (xEventGroupWaitBits g bits n) = g (fst (xEventGroupWaitBits g bits n))"
  by (induction n arbitrary: g) (simp_all add: wait_Suc del: xEventGroupWaitBits.simps(2))

lemma wait_immediate: "g 0 AND bits \<noteq> 0 \<Longrightarrow> xEventGroupWaitBits g bits n = (0, g 0)"
  by (cases n) simp_all

lemma wait_wakes:
  "t \<le> n \<Longrightarrow> g t AND bits \<noteq> 0 \<Longrightarrow> fst (xEventGroupWaitBits g bits n) \<le> t"
proof (induction n arbitrary: g t)
  case 0
  then show ?case by simp
next
  case (Suc n)
  show ?case
  proof (cases "g 0 AND bits \<noteq> 0")
    case True
    then show ?thesis by (simp add: wait_Suc del: xEventGroupWaitBits.simps(2))
  next
    case False
    then obtain t' where t': "t = Suc t'" using Suc.prems(2) by (cases t) auto
    have "fst (xEventGroupWaitBits (\<lambda>t. g (Suc t)) bits n) \<le> t'"
      using Suc.IH [of t' "\<lambda>t. g (Suc t)"] Suc.prems t' by simp
    then show ?thesis using False t' by (simp add: wait_Suc del: xEventGroupWaitBits.simps(2))
  qed
qed

lemma wait_blocks:
  "t < fst (xEventGroupWaitBits g bits n) \<Longrightarrow> g t AND bits = 0"
proof (induction n arbitrary: g t)
  case 0
  then show ?case by simp
next
  case (Suc n)
  show ?case
  proof (cases "g 0 AND bits \<noteq> 0")
    case True
    then show ?thesis using Suc.prems by (simp add: wait_Suc del: xEventGroupWaitBits.simps(2))
  next
    case False
    show ?thesis
    proof (cases t)
      case 0
      then show ?thesis using False by simp
    next
      case (Suc t')
      then have "t' < fst (xEventGroupWaitBits (\<lambda>t. g (Suc t)) bits n)"
        using Suc.prems False by (simp add: wait_Suc del: xEventGroupWaitBits.simps(2))
      from Suc.IH [OF this] show ?thesis using Suc by simp
    qed
  qed
qed

lemma wait_reason:
  "fst (xEventGroupWaitBits g bits n) = n \<or> g (fst (xEventGroupWaitBits g bits n)) AND bits \<noteq> 0"
proof (induction n arbitrary: g)
  case 0
  show ?case by simp
next
  case (Suc n)
  from Suc [of "\<lambda>t. g (Suc t)"] show ?case
    by (auto simp add: wait_Suc simp del: xEventGroupWaitBits.simps(2))
qed

lemma wait_never:
  "(\<forall>t. g t AND bits = 0) \<Longrightarrow> xEventGroupWaitBits g bits n = (n, g n)"
  by (induction n arbitrary: g) simp_all

lemma Stop_bits:
  "event_group (Stop s) = (event_group s AND NOT WIFI_EVENT_CONNECTED) OR WIFI_EVENT_STOPPED"
  "was_connected (Stop s) = False"
  by (simp_all add: Stop_def Let_def emit_def xEventGroupSetBits_def xEventGroupClearBits_def)

lemma Stop_flags:
  "event_group (Stop s) AND WIFI_EVENT_CONNECTED = 0"
  "event_group (Stop s) AND WIFI_EVENT_STOPPED = WIFI_EVENT_STOPPED"
  "event_group (Stop s) AND (WIFI_EVENT_CONNECTED OR WIFI_EVENT_STOPPED) \<noteq> 0"
proof -
  show 1: "event_group (Stop s) AND WIFI_EVENT_CONNECTED = 0"
    unfolding Stop_bits stopped_keeps_connected by (rule connected_bit_cleared)
  show 2: "event_group (Stop s) AND WIFI_EVENT_STOPPED = WIFI_EVENT_STOPPED"
    unfolding Stop_bits by simp
  have "event_group (Stop s) AND (WIFI_EVENT_CONNECTED OR WIFI_EVENT_STOPPED)
      = (event_group (Stop s) AND WIFI_EVENT_CONNECTED) OR (event_group (Stop s) AND WIFI_EVENT_STOPPED)"
    by (rule bit.conj_disj_distrib)
  then show "event_group (Stop s) AND (WIFI_EVENT_CONNECTED OR WIFI_EVENT_STOPPED) \<noteq> 0"
    unfolding 1 2 by (simp add: WIFI_EVENT_STOPPED_def)
qed

text \<open>
  C9, for the timeouts that are not negative. Let the tick period be positive and the
  timeout a non-negative \<open>int\<close>. Then
  \<open>WaitForConnected\<close> blocks for at most \<open>timeout_ms / portTICK_PERIOD_MS\<close> ticks; it
  returns no later than the first tick at which the connected or the stopped bit is set, and
  not before one of them is set unless the timeout expires; and it returns true exactly when
  the connected bit is set in the event group at the tick it returns. \<open>Stop\<close> clears the
  connected bit and the "was connected" flag and sets the stopped bit, so a wait that starts
  on the event group as \<open>Stop\<close> left it returns false without blocking.
\<close>

theorem bounded_wait:
  assumes "0 < p" and "0 \<le> timeout_ms" and "timeout_ms < 2 ^ 31"
  shows "fst (WaitForConnected p g timeout_ms) \<le> nat timeout_ms div p \<and>
         snd (WaitForConnected p g timeout_ms)
           = (g (fst (WaitForConnected p g timeout_ms)) AND WIFI_EVENT_CONNECTED \<noteq> 0) \<and>
         (\<forall>t \<le> nat timeout_ms div p.
            g t AND (WIFI_EVENT_CONNECTED OR WIFI_EVENT_STOPPED) \<noteq> 0 \<longrightarrow>
            fst (WaitForConnected p g timeout_ms) \<le> t) \<and>
         (\<forall>t < fst (WaitForConnected p g timeout_ms).
            g t AND (WIFI_EVENT_CONNECTED OR WIFI_EVENT_STOPPED) = 0) \<and>
         (fst (WaitForConnected p g timeout_ms) = nat timeout_ms div p \<or>
          g (fst (WaitForConnected p g timeout_ms))
            AND (WIFI_EVENT_CONNECTED OR WIFI_EVENT_STOPPED) \<noteq> 0) \<and>
         \<not> IsConnected (Stop s) \<and> \<not> was_connected (Stop s) \<and>
         event_group (Stop s) AND WIFI_EVENT_STOPPED \<noteq> 0 \<and>
         (g 0 = event_group (Stop s) \<longrightarrow> WaitForConnected p g timeout_ms = (0, False))"
proof -
  let ?m = "WIFI_EVENT_CONNECTED OR WIFI_EVENT_STOPPED"
  let ?n = "nat timeout_ms div p"
  have n: "nat (timeout_ms mod 2 ^ 32) div p = ?n" using assms by simp
  have w: "WaitForConnected p g timeout_ms =
      (fst (xEventGroupWaitBits g ?m ?n), snd (xEventGroupWaitBits g ?m ?n) AND WIFI_EVENT_CONNECTED \<noteq> 0)"
    by (simp only: WaitForConnected_def n case_prod_beta)
  have 1: "fst (WaitForConnected p g timeout_ms) \<le> ?n" unfolding w by (simp add: wait_bounded)
  have 2: "snd (WaitForConnected p g timeout_ms)
           = (g (fst (WaitForConnected p g timeout_ms)) AND WIFI_EVENT_CONNECTED \<noteq> 0)"
    unfolding w by (simp add: wait_value)
  have 3: "\<forall>t \<le> ?n. g t AND ?m \<noteq> 0 \<longrightarrow> fst (WaitForConnected p g timeout_ms) \<le> t"
    unfolding w using wait_wakes [of _ ?n g ?m] by simp
  have 4: "\<forall>t < fst (WaitForConnected p g timeout_ms). g t AND ?m = 0"
    unfolding w using wait_blocks [of _ g ?m ?n] by simp
  have 7: "fst (WaitForConnected p g timeout_ms) = ?n \<or>
      g (fst (WaitForConnected p g timeout_ms)) AND ?m \<noteq> 0"
    unfolding w using wait_reason [of g ?m ?n] by simp
  have 5: "\<not> IsConnected (Stop s)" "\<not> was_connected (Stop s)"
    "event_group (Stop s) AND WIFI_EVENT_STOPPED \<noteq> 0"
    using Stop_flags(2) [of s]
    by (simp_all add: IsConnected_def Stop_flags(1) Stop_bits(2) WIFI_EVENT_STOPPED_def)
  have 6: "WaitForConnected p g timeout_ms = (0, False)" if "g 0 = event_group (Stop s)"
  proof -
    have "g 0 AND ?m \<noteq> 0" using Stop_flags(3) [of s] that by simp
    then have "xEventGroupWaitBits g ?m ?n = (0, g 0)" by (rule wait_immediate)
    then show ?thesis unfolding w using that Stop_flags(1) [of s] by simp
  qed
  show ?thesis using 1 2 3 4 5 6 7 by blast
qed

theorem bounded_wait_witness:
  "(0::nat) < 10 \<and> (0::int) \<le> 10000 \<and> (10000::int) < 2 ^ 31 \<and>
   WaitForConnected 10 (\<lambda>t. event_group (Stop example_station)) 10000 = (0, False) \<and>
   fst (WaitForConnected 10 (\<lambda>t. 0) 10000) \<le> 1000 \<and>
   \<not> snd (WaitForConnected 10 (\<lambda>t. 0) 10000) \<and>
   WaitForConnected 10 (\<lambda>t. if t < 3 then 0 else WIFI_EVENT_CONNECTED) 10000 = (3, True)"
proof -
  have a: "(0::nat) < 10" "(0::int) \<le> 10000" "(10000::int) < 2 ^ 31" by simp_all
  note b = bounded_wait [OF a]
  have 1: "WaitForConnected 10 (\<lambda>t. event_group (Stop example_station)) 10000 = (0, False)"
    using b [of "\<lambda>t. event_group (Stop example_station)" example_station] by simp
  have 2: "fst (WaitForConnected 10 (\<lambda>t. 0) 10000) \<le> 1000"
    "\<not> snd (WaitForConnected 10 (\<lambda>t. 0) 10000)"
    using b [of "\<lambda>t. 0" example_station] by simp_all
  let ?g = "\<lambda>t::nat. if t < 3 then 0 else WIFI_EVENT_CONNECTED"
  let ?t = "fst (WaitForConnected 10 ?g 10000)"
  note c = b [of ?g example_station]
  have le: "?t \<le> 3"
    using c [THEN conjunct2, THEN conjunct2, THEN conjunct1, THEN spec, of 3]
    by (simp add: WIFI_EVENT_CONNECTED_def)
  have "?t = nat 10000 div 10 \<or> ?g ?t AND (WIFI_EVENT_CONNECTED OR WIFI_EVENT_STOPPED) \<noteq> 0"
    using c by blast
  then have "?g ?t AND (WIFI_EVENT_CONNECTED OR WIFI_EVENT_STOPPED) \<noteq> 0" using le by auto
  then have "\<not> ?t < 3" by auto
  then have t: "?t = 3" using le by simp
  have "snd (WaitForConnected 10 ?g 10000) = (?g ?t AND WIFI_EVENT_CONNECTED \<noteq> 0)"
    using c by blast
  then have "snd (WaitForConnected 10 ?g 10000)" unfolding t by (simp add: WIFI_EVENT_CONNECTED_def)
  then have 3: "WaitForConnected 10 ?g 10000 = (3, True)" using t by (simp add: prod_eq_iff)
  show ?thesis using a 1 2 3 by simp
qed

text \<open>
  The claim as written, for any timeout, fails for a negative one: the division by the tick
  period is done in the unsigned tick type, so \<open>-1\<close> milliseconds become 429496729 ticks
  of 10 milliseconds, and a wait on an event group in which no bit is ever set blocks for
  all of them.
\<close>

theorem bounded_wait_counterexample:
  "WaitForConnected 10 (\<lambda>t. 0) (- 1) = (429496729, False) \<and>
   \<not> fst (WaitForConnected 10 (\<lambda>t. 0) (- 1)) \<le> nat (- 1) div 10"
  by (simp add: WaitForConnected_def wait_never)

end
